theory Spec2Isabelle
  imports Main "HOL-Library.Sublist"
begin

section \<open>cliproc: the \<open>CliCommand\<close> wrapper around sarge's Pipeline and Capture\<close>

text \<open>
  The repository is one Python class, \<open>CliCommand\<close> (src/cliproc.py). It stores a
  program path and options, and its \<open>run\<close> builds a command line, hands it to a
  \<open>Pipeline\<close> of the third-party library sarge, optionally with two \<open>Capture\<close>
  objects, and optionally prints a report.

  The embedding is by explicit state passing. The fields of a \<open>CliCommand\<close> object are a
  record; the sarge objects it refers to live in a store (\<open>world\<close>), because a Pipeline
  and the CliCommand share the same Capture objects. What the interpreter and the library
  decide (the encodings of \<open>sys.stdout\<close> and \<open>sys.stderr\<close>, \<open>platform.system()\<close>, whether
  a library call raises, what a launched command yields) is a parameter: the record
  \<open>env\<close>. Every theorem holds for every such environment.

  An exception leaves the object as the statements before the raise made it, and a caller
  may catch it and go on using the object. So every method returns an outcome (the
  returned value or the exception) together with the state it left.
  The calls of \<open>_logger.debug\<close> write to the logging framework only and are left out.
\<close>

subsection \<open>Values, objects and the store\<close>

text \<open>The Python values a keyword argument, an encoding option or an input may be.\<close>

datatype pyval = PyNone | PyBool bool | PyInt int | PyStr string

text \<open>
  \<open>AttributeError\<close> and \<open>TypeError\<close> are raised by the interpreter (an attribute of
  \<open>None\<close>, \<open>%d\<close> applied to \<open>None\<close>, a keyword argument given twice);
  \<open>LibraryError\<close> is whatever a call into sarge raised.
\<close>

datatype error = AttributeError | TypeError | LibraryError string

datatype 'a outcome = Return 'a | Raise error

type_synonym ref = nat

text \<open>A sarge \<open>Capture\<close>: its encoding, the text its \<open>text\<close> attribute yields, and
  whether \<open>close\<close> has returned on it.\<close>

record Capture =
  cap_encoding :: pyval
  cap_text :: string
  cap_closed :: bool

text \<open>A sarge \<open>Pipeline\<close>: the arguments of its constructor, its \<open>returncode\<close>, and
  whether \<open>close\<close> has returned on it.\<close>

record Pipeline =
  source :: string
  shell :: "bool option"
  pl_posix :: "bool option"
  pl_stdout :: "ref option"
  pl_stderr :: "ref option"
  pl_kwargs :: "string \<rightharpoonup> pyval"
  returncode :: "int option"
  pl_closed :: bool

text \<open>The calls into sarge, in the order they are made. A constructor is recorded with
  the reference of the object it made, a method with the object it is called on.\<close>

datatype call =
    Capture_init ref
  | Capture_close ref
  | Pipeline_init ref
  | Pipeline_run ref
  | Pipeline_close ref

text \<open>The store: the Capture and Pipeline objects made so far (a reference is an index),
  the characters written to standard output by \<open>print\<close>, and the library calls made.\<close>

record world =
  captures :: "Capture list"
  pipelines :: "Pipeline list"
  console :: string
  calls :: "call list"

text \<open>
  The environment. \<open>lib_Capture_close\<close>, \<open>lib_Pipeline_init\<close> and \<open>lib_Pipeline_close\<close> say
  whether the call raises (\<open>Some\<close> of the message) or returns (\<open>None\<close>);
  \<open>lib_Pipeline_run\<close> raises or yields the return code (\<open>None\<close> while the command has not
  finished, as an asynchronous run may leave it) and the texts the command wrote to its
  standard output and standard error.
\<close>

record env =
  sys_stdout_encoding :: "string option"
  sys_stderr_encoding :: "string option"
  platform_system :: string
  lib_Capture_close :: "Capture \<Rightarrow> string option"
  lib_Pipeline_init :: "Pipeline \<Rightarrow> string option"
  lib_Pipeline_run :: "Pipeline \<Rightarrow> pyval \<Rightarrow> bool \<Rightarrow> string + (int option \<times> string \<times> string)"
  lib_Pipeline_close :: "Pipeline \<Rightarrow> string option"

text \<open>The attributes of a \<open>CliCommand\<close> object (\<open>_silence\<close> and \<open>_capture\<close> without the
  underscore).\<close>

record CliCommand =
  cmd :: string
  posix :: "bool option"
  process :: "ref option"
  kwargs :: "string \<rightharpoonup> pyval"
  stdout :: "ref option"
  stderr :: "ref option"
  stdout_encoding :: pyval
  stderr_encoding :: pyval
  silence :: bool
  capture :: bool

subsection \<open>The library calls\<close>

text \<open>
  The calls that may raise are the ones the environment decides: the two \<open>close\<close> methods,
  the constructor of Pipeline and its \<open>run\<close>. The constructor of Capture and the reads of
  the attributes \<open>text\<close>, \<open>source\<close> and \<open>returncode\<close> return.
\<close>

text \<open>\<open>Capture(encoding=enc)\<close>: a new object, open and empty.\<close>

definition Capture_new :: "world \<Rightarrow> pyval \<Rightarrow> ref \<times> world" where
  "Capture_new w enc =
     (length (captures w),
      w\<lparr>captures := captures w @ [\<lparr>cap_encoding = enc, cap_text = [], cap_closed = False\<rparr>],
        calls := calls w @ [Capture_init (length (captures w))]\<rparr>)"

text \<open>\<open>c.close(stop_threads=True)\<close>.\<close>

definition Capture_close_call :: "env \<Rightarrow> world \<Rightarrow> ref \<Rightarrow> unit outcome \<times> world" where
  "Capture_close_call e w c =
     (let w1 = w\<lparr>calls := calls w @ [Capture_close c]\<rparr> in
      case lib_Capture_close e (captures w ! c) of
        Some m \<Rightarrow> (Raise (LibraryError m), w1)
      | None \<Rightarrow>
          (Return (), w1\<lparr>captures := (captures w1)[c := (captures w1 ! c)\<lparr>cap_closed := True\<rparr>]\<rparr>))"

text \<open>
  \<open>Pipeline(source=.., shell=.., posix=.., stdout=.., stderr=.., **kwargs)\<close>. Python raises
  TypeError before the constructor runs when \<open>kwargs\<close> repeats one of the five keywords
  given by name. The constructor itself may raise (sarge parses the command line there).
\<close>

definition Pipeline_new ::
  "env \<Rightarrow> world \<Rightarrow> string \<Rightarrow> bool option \<Rightarrow> bool option \<Rightarrow> ref option \<Rightarrow> ref option \<Rightarrow>
   (string \<rightharpoonup> pyval) \<Rightarrow> ref outcome \<times> world" where
  "Pipeline_new e w src sh px out err kw =
     (if list_ex (\<lambda>k. kw k \<noteq> None) [''source'', ''shell'', ''posix'', ''stdout'', ''stderr'']
      then (Raise TypeError, w)
      else
        let obj = \<lparr>source = src, shell = sh, pl_posix = px, pl_stdout = out, pl_stderr = err,
                   pl_kwargs = kw, returncode = None, pl_closed = False\<rparr> in
        case lib_Pipeline_init e obj of
          Some m \<Rightarrow> (Raise (LibraryError m), w)
        | None \<Rightarrow>
            (Return (length (pipelines w)),
             w\<lparr>pipelines := pipelines w @ [obj],
               calls := calls w @ [Pipeline_init (length (pipelines w))]\<rparr>))"

text \<open>Storing the text a command wrote into the Capture it was given, if any.\<close>

definition feed :: "ref option \<Rightarrow> string \<Rightarrow> Capture list \<Rightarrow> Capture list" where
  "feed r t cs = (case r of None \<Rightarrow> cs | Some c \<Rightarrow> cs[c := (cs ! c)\<lparr>cap_text := t\<rparr>])"

text \<open>\<open>p.run(input=input, async_=async)\<close>.\<close>

definition Pipeline_run_call ::
  "env \<Rightarrow> world \<Rightarrow> ref \<Rightarrow> pyval \<Rightarrow> bool \<Rightarrow> unit outcome \<times> world" where
  "Pipeline_run_call e w p inp asy =
     (let w1 = w\<lparr>calls := calls w @ [Pipeline_run p]\<rparr>; obj = pipelines w ! p in
      case lib_Pipeline_run e obj inp asy of
        Inl m \<Rightarrow> (Raise (LibraryError m), w1)
      | Inr (rc, out, err) \<Rightarrow>
          (Return (),
           w1\<lparr>pipelines := (pipelines w1)[p := obj\<lparr>returncode := rc\<rparr>],
              captures := feed (pl_stderr obj) err (feed (pl_stdout obj) out (captures w1))\<rparr>))"

text \<open>\<open>p.close()\<close>.\<close>

definition Pipeline_close_call :: "env \<Rightarrow> world \<Rightarrow> ref \<Rightarrow> unit outcome \<times> world" where
  "Pipeline_close_call e w p =
     (let w1 = w\<lparr>calls := calls w @ [Pipeline_close p]\<rparr> in
      case lib_Pipeline_close e (pipelines w ! p) of
        Some m \<Rightarrow> (Raise (LibraryError m), w1)
      | None \<Rightarrow>
          (Return (), w1\<lparr>pipelines := (pipelines w1)[p := (pipelines w1 ! p)\<lparr>pl_closed := True\<rparr>]\<rparr>))"

subsection \<open>\<open>CliCommand.__init__\<close> (lines 34-57)\<close>

text \<open>
  \<open>self.kwargs\<close> and the local \<open>kwargs\<close> are one dictionary, so \<open>kwargs.pop("encoding")\<close>
  removes the key from the stored options too.
  The caller supplies every argument: the defaults of the signature are \<open>posix=None\<close>,
  \<open>silence=True\<close>, \<open>capture=True\<close> and no further keyword.
\<close>

definition init ::
  "env \<Rightarrow> string \<Rightarrow> bool option \<Rightarrow> bool \<Rightarrow> bool \<Rightarrow> (string \<rightharpoonup> pyval) \<Rightarrow> CliCommand" where
  "init e cmd' posix' silence' capture' kwargs' =
     (let self = \<lparr>cmd = cmd', posix = posix', process = None, kwargs = kwargs',
                  stdout = None, stderr = None,
                  stdout_encoding = PyNone, stderr_encoding = PyNone,
                  silence = silence', capture = capture'\<rparr> in
      case kwargs' ''encoding'' of
        Some encoding \<Rightarrow>
          self\<lparr>kwargs := kwargs'(''encoding'' := None),
               stdout_encoding := encoding, stderr_encoding := encoding\<rparr>
      | None \<Rightarrow>
          (case (sys_stdout_encoding e, sys_stderr_encoding e) of
             (Some out_enc, Some err_enc) \<Rightarrow>
               self\<lparr>stdout_encoding := PyStr out_enc, stderr_encoding := PyStr err_enc\<rparr>
           | _ \<Rightarrow>
               self\<lparr>stdout_encoding := PyStr ''utf-8'', stderr_encoding := PyStr ''utf-8''\<rparr>))"

subsection \<open>\<open>get_process\<close>, \<open>get_output\<close> (lines 129-144)\<close>

definition get_process :: "CliCommand \<Rightarrow> ref option" where
  "get_process self = process self"

definition get_output :: "CliCommand \<Rightarrow> ref option" where
  "get_output self = stdout self"

subsection \<open>\<open>terminate\<close> (lines 146-163)\<close>

text \<open>The three guarded blocks, one definition each. A close that raises leaves the
  attribute as it was: the assignment of \<open>None\<close> follows the call.\<close>

definition terminate_stdout ::
  "env \<Rightarrow> CliCommand \<Rightarrow> world \<Rightarrow> unit outcome \<times> CliCommand \<times> world" where
  "terminate_stdout e self w =
     (case stdout self of
        None \<Rightarrow> (Return (), self, w)
      | Some c \<Rightarrow>
          (case Capture_close_call e w c of
             (Raise x, w1) \<Rightarrow> (Raise x, self, w1)
           | (Return _, w1) \<Rightarrow> (Return (), self\<lparr>stdout := None\<rparr>, w1)))"

definition terminate_stderr ::
  "env \<Rightarrow> CliCommand \<Rightarrow> world \<Rightarrow> unit outcome \<times> CliCommand \<times> world" where
  "terminate_stderr e self w =
     (case stderr self of
        None \<Rightarrow> (Return (), self, w)
      | Some c \<Rightarrow>
          (case Capture_close_call e w c of
             (Raise x, w1) \<Rightarrow> (Raise x, self, w1)
           | (Return _, w1) \<Rightarrow> (Return (), self\<lparr>stderr := None\<rparr>, w1)))"

definition terminate_process ::
  "env \<Rightarrow> CliCommand \<Rightarrow> world \<Rightarrow> unit outcome \<times> CliCommand \<times> world" where
  "terminate_process e self w =
     (case process self of
        None \<Rightarrow> (Return (), self, w)
      | Some p \<Rightarrow>
          (case Pipeline_close_call e w p of
             (Raise x, w1) \<Rightarrow> (Raise x, self, w1)
           | (Return _, w1) \<Rightarrow> (Return (), self\<lparr>process := None\<rparr>, w1)))"

definition terminate ::
  "env \<Rightarrow> CliCommand \<Rightarrow> world \<Rightarrow> unit outcome \<times> CliCommand \<times> world" where
  "terminate e self w =
     (case terminate_stdout e self w of
        (Raise x, s1, w1) \<Rightarrow> (Raise x, s1, w1)
      | (Return _, s1, w1) \<Rightarrow>
          (case terminate_stderr e s1 w1 of
             (Raise x, s2, w2) \<Rightarrow> (Raise x, s2, w2)
           | (Return _, s2, w2) \<Rightarrow> terminate_process e s2 w2))"

subsection \<open>\<open>_printResult\<close> (lines 97-127)\<close>

text \<open>\<open>print(s, end=e)\<close>; the default end is a newline.\<close>

definition py_print :: "world \<Rightarrow> string \<Rightarrow> string \<Rightarrow> world" where
  "py_print w s end' = w\<lparr>console := console w @ s @ end'\<rparr>"

text \<open>\<open>s.split("\n")\<close>: never empty, \<open>"".split("\n")\<close> is \<open>[""]\<close>.\<close>

fun split_nl :: "string \<Rightarrow> string list" where
  "split_nl [] = [[]]"
| "split_nl (c # cs) =
     (if c = CHR 0x0A then [] # split_nl cs
      else (case split_nl cs of l # ls \<Rightarrow> (c # l) # ls | [] \<Rightarrow> [[c]]))"

text \<open>\<open>"%d" % i\<close> for an integer.\<close>

fun digits :: "nat \<Rightarrow> string" where
  "digits n =
     (if n < 10 then [''0123456789'' ! n]
      else digits (n div 10) @ [''0123456789'' ! (n mod 10)])"

definition format_d :: "int \<Rightarrow> string" where
  "format_d i = (if i < 0 then ''-'' @ digits (nat (- i)) else digits (nat i))"

text \<open>Lines 106-113 and 117-124: the first element on the label's line, then one
  prefixed line for each element left after \<open>data.pop(0)\<close>.\<close>

definition print_data :: "world \<Rightarrow> string list \<Rightarrow> world" where
  "print_data w data =
     (case data of
        x # rest \<Rightarrow>
          foldl (\<lambda>w' i. py_print w' (''[]           : '' @ i) ''\<newline>'') (py_print w x ''\<newline>'') rest
      | [] \<Rightarrow> py_print w '''' ''\<newline>'')"

definition printResult :: "CliCommand \<Rightarrow> world \<Rightarrow> unit outcome \<times> world" where
  "printResult self w =
     (let w1 = py_print w ''[] ** START **'' ''\<newline>'' in
      case process self of
        None \<Rightarrow> (Raise AttributeError, w1)
      | Some p \<Rightarrow>
          let w2 = py_print w1 (''[] Command   : '' @ source (pipelines w1 ! p)) ''\<newline>'' in
          (case returncode (pipelines w2 ! p) of
             None \<Rightarrow> (Raise TypeError, w2)
           | Some rc \<Rightarrow>
               let w3 = py_print w2 (''[] Exit Code : '' @ format_d rc) ''\<newline>'';
                   w4 = py_print w3 ''[] STDOUT    :'' '' '' in
               (case stdout self of
                  None \<Rightarrow> (Raise AttributeError, w4)
                | Some c \<Rightarrow>
                    let w5 = print_data w4 (split_nl (cap_text (captures w4 ! c)));
                        w6 = py_print w5 ''[] STDERR    :'' '' '' in
                    (case stderr self of
                       None \<Rightarrow> (Raise AttributeError, w6)
                     | Some d \<Rightarrow>
                         let w7 = print_data w6 (split_nl (cap_text (captures w6 ! d)));
                             w8 = py_print w7 ''[] ** E N D **'' ''\<newline>'' in
                         (Return (), py_print w8 '''' ''\<newline>'')))))"

subsection \<open>\<open>run\<close> (lines 59-95)\<close>

text \<open>Lines 71-73: the two Capture objects, made only when \<open>_capture is True\<close>.\<close>

definition allocate :: "CliCommand \<Rightarrow> world \<Rightarrow> CliCommand \<times> world" where
  "allocate self w =
     (if capture self then
        let (c1, w1) = Capture_new w (stdout_encoding self);
            (c2, w2) = Capture_new w1 (stderr_encoding self)
        in (self\<lparr>stdout := Some c1, stderr := Some c2\<rparr>, w2)
      else (self, w))"

text \<open>Lines 75-78: \<open>if param:\<close> is false for \<open>None\<close> and for the empty string.\<close>

definition command_line :: "string \<Rightarrow> string option \<Rightarrow> string" where
  "command_line cmd' param =
     (case param of
        None \<Rightarrow> cmd'
      | Some s \<Rightarrow> if s \<noteq> [] then cmd' @ '' '' @ s else cmd')"

text \<open>Lines 80-84: the command and the \<open>shell\<close> argument for the platform.\<close>

definition for_platform :: "env \<Rightarrow> string \<Rightarrow> string \<times> bool option" where
  "for_platform e command =
     (if platform_system e = ''Windows'' then (command @ '' & exit'', Some True)
      else (command, None))"

definition run ::
  "env \<Rightarrow> CliCommand \<Rightarrow> world \<Rightarrow> string option \<Rightarrow> pyval \<Rightarrow> pyval \<Rightarrow> bool \<Rightarrow>
   ref option outcome \<times> CliCommand \<times> world" where
  "run e self w param msg inp asy =
     (case terminate e self w of
        (Raise x, s1, w1) \<Rightarrow> (Raise x, s1, w1)
      | (Return _, s1, w1) \<Rightarrow>
          let (s2, w2) = allocate s1 w1;
              (command, shell') = for_platform e (command_line (cmd s2) param)
          in
          (case Pipeline_new e w2 command shell' (posix s2) (stdout s2) (stderr s2) (kwargs s2) of
             (Raise x, w3) \<Rightarrow> (Raise x, s2, w3)
           | (Return p, w3) \<Rightarrow>
               let s3 = s2\<lparr>process := Some p\<rparr> in
               (case Pipeline_run_call e w3 p inp asy of
                  (Raise x, w4) \<Rightarrow> (Raise x, s3, w4)
                | (Return _, w4) \<Rightarrow>
                    if \<not> silence s3 then
                      (case printResult s3 w4 of
                         (Raise x, w5) \<Rightarrow> (Raise x, s3, w5)
                       | (Return _, w5) \<Rightarrow> (Return (get_process s3), s3, w5))
                    else (Return (get_process s3), s3, w4))))"

subsection \<open>Live pipelines and reachable states\<close>

text \<open>A Pipeline is live from its construction until \<open>close\<close> has returned on it.\<close>

definition live :: "world \<Rightarrow> ref list" where
  "live w = filter (\<lambda>p. \<not> pl_closed (pipelines w ! p)) [0..<length (pipelines w)]"

text \<open>Every live Pipeline of the store is the one the object's \<open>process\<close> attribute
  refers to.\<close>

definition owns_live :: "CliCommand \<Rightarrow> world \<Rightarrow> bool" where
  "owns_live self w =
     (case process self of
        None \<Rightarrow> live w = []
      | Some p \<Rightarrow> p < length (pipelines w) \<and> list_all (\<lambda>q. q = p) (live w))"

fun is_close :: "call \<Rightarrow> bool" where
  "is_close (Capture_close _) = True"
| "is_close (Pipeline_close _) = True"
| "is_close _ = False"

text \<open>
  The states an object goes through: constructed (in a store with no live Pipeline), then
  any sequence of \<open>run\<close> and \<open>terminate\<close>, each with whatever outcome, an exception
  included.
\<close>

inductive reachable :: "env \<Rightarrow> CliCommand \<Rightarrow> world \<Rightarrow> bool" for e :: env where
  constructed: "live w = [] \<Longrightarrow> reachable e (init e cmd' posix' silence' capture' kwargs') w"
| ran: "reachable e self w \<Longrightarrow> run e self w param msg inp asy = (r, self', w') \<Longrightarrow>
        reachable e self' w'"
| terminated: "reachable e self w \<Longrightarrow> terminate e self w = (r, self', w') \<Longrightarrow>
        reachable e self' w'"

subsection \<open>What \<open>terminate\<close> has to close\<close>

text \<open>The close calls due in a state: one for each of \<open>stdout\<close>, \<open>stderr\<close> and \<open>process\<close>
  that is not \<open>None\<close>, in the order of the three blocks of \<open>terminate\<close>.\<close>

definition due_closes :: "CliCommand \<Rightarrow> call list" where
  "due_closes self =
     (case stdout self of None \<Rightarrow> [] | Some c \<Rightarrow> [Capture_close c]) @
     (case stderr self of None \<Rightarrow> [] | Some c \<Rightarrow> [Capture_close c]) @
     (case process self of None \<Rightarrow> [] | Some p \<Rightarrow> [Pipeline_close p])"

subsection \<open>Example environments and states\<close>

text \<open>
  Concrete inputs for the closed instances below. \<open>posix_env\<close> is a Linux host with UTF-8
  streams on which every library call returns and every command exits with 0 after writing
  three lines to its standard output; \<open>windows_env\<close> is the same on Windows with cp1252
  streams; in \<open>rewrapped_env\<close> the program has replaced \<open>sys.stdout\<close> by a UTF-8 wrapper on
  that Windows host, so the two streams differ.
\<close>

definition posix_env :: env where
  "posix_env =
     \<lparr>sys_stdout_encoding = Some ''utf-8'', sys_stderr_encoding = Some ''utf-8'',
      platform_system = ''Linux'',
      lib_Capture_close = (\<lambda>_. None),
      lib_Pipeline_init = (\<lambda>_. None),
      lib_Pipeline_run = (\<lambda>_ _ _. Inr (Some 0, ''a\<newline>b\<newline>c'', '''')),
      lib_Pipeline_close = (\<lambda>_. None)\<rparr>"

definition windows_env :: env where
  "windows_env =
     posix_env\<lparr>sys_stdout_encoding := Some ''cp1252'', sys_stderr_encoding := Some ''cp1252'',
               platform_system := ''Windows''\<rparr>"

definition rewrapped_env :: env where
  "rewrapped_env = windows_env\<lparr>sys_stdout_encoding := Some ''utf-8''\<rparr>"

definition empty_world :: world where
  "empty_world = \<lparr>captures = [], pipelines = [], console = [], calls = []\<rparr>"

text \<open>\<open>CliCommand("foo")\<close> with the default options, and the same with \<open>silence=False\<close>
  or \<open>capture=False\<close>.\<close>

definition foo_cmd :: "env \<Rightarrow> CliCommand" where
  "foo_cmd e = init e ''foo'' None True True Map.empty"

definition foo_loud :: "env \<Rightarrow> CliCommand" where
  "foo_loud e = init e ''foo'' None False True Map.empty"

definition foo_nocapture :: "env \<Rightarrow> CliCommand" where
  "foo_nocapture e = init e ''foo'' None True False Map.empty"

text \<open>The state \<open>run("-l")\<close> leaves on \<open>posix_env\<close>, starting from \<open>foo_cmd\<close> and the
  empty store.\<close>

definition foo_started :: CliCommand where
  "foo_started =
     \<lparr>cmd = ''foo'', posix = None, process = Some 0, kwargs = Map.empty,
      stdout = Some 0, stderr = Some 1,
      stdout_encoding = PyStr ''utf-8'', stderr_encoding = PyStr ''utf-8'',
      silence = True, capture = True\<rparr>"

definition world_started :: world where
  "world_started =
     \<lparr>captures = [\<lparr>cap_encoding = PyStr ''utf-8'', cap_text = ''a\<newline>b\<newline>c'', cap_closed = False\<rparr>,
                  \<lparr>cap_encoding = PyStr ''utf-8'', cap_text = [], cap_closed = False\<rparr>],
      pipelines = [\<lparr>source = ''foo -l'', shell = None, pl_posix = None,
                    pl_stdout = Some 0, pl_stderr = Some 1, pl_kwargs = Map.empty,
                    returncode = Some 0, pl_closed = False\<rparr>],
      console = [],
      calls = [Capture_init 0, Capture_init 1, Pipeline_init 0, Pipeline_run 0]\<rparr>"

text \<open>The state \<open>terminate()\<close> then leaves.\<close>

definition foo_stopped :: CliCommand where
  "foo_stopped = foo_started\<lparr>process := None, stdout := None, stderr := None\<rparr>"

definition world_stopped :: world where
  "world_stopped =
     world_started\<lparr>captures := map (\<lambda>c. c\<lparr>cap_closed := True\<rparr>) (captures world_started),
                   pipelines := map (\<lambda>c. c\<lparr>pl_closed := True\<rparr>) (pipelines world_started),
                   calls := calls world_started @ [Capture_close 0, Capture_close 1, Pipeline_close 0]\<rparr>"

section \<open>Facts about the steps\<close>

subsection \<open>The outcomes of \<open>run\<close>\<close>

lemmas terminate_defs = terminate_def terminate_stdout_def terminate_stderr_def terminate_process_def
  Capture_close_call_def Pipeline_close_call_def

lemma run_cases:
  assumes "run e self w param msg inp asy = (r, self', w')"
  obtains
    (terminate_raised) x where "terminate e self w = (Raise x, self', w')" "r = Raise x"
  | (init_raised) s1 w1 s2 w2 x where
      "terminate e self w = (Return (), s1, w1)" "allocate s1 w1 = (s2, w2)"
      "Pipeline_new e w2 (fst (for_platform e (command_line (cmd s2) param)))
         (snd (for_platform e (command_line (cmd s2) param)))
         (posix s2) (stdout s2) (stderr s2) (kwargs s2) = (Raise x, w')"
      "r = Raise x" "self' = s2"
  | (run_raised) s1 w1 s2 w2 p w3 x where
      "terminate e self w = (Return (), s1, w1)" "allocate s1 w1 = (s2, w2)"
      "Pipeline_new e w2 (fst (for_platform e (command_line (cmd s2) param)))
         (snd (for_platform e (command_line (cmd s2) param)))
         (posix s2) (stdout s2) (stderr s2) (kwargs s2) = (Return p, w3)"
      "Pipeline_run_call e w3 p inp asy = (Raise x, w')"
      "r = Raise x" "self' = s2\<lparr>process := Some p\<rparr>"
  | (print_raised) s1 w1 s2 w2 p w3 w4 x where
      "terminate e self w = (Return (), s1, w1)" "allocate s1 w1 = (s2, w2)"
      "Pipeline_new e w2 (fst (for_platform e (command_line (cmd s2) param)))
         (snd (for_platform e (command_line (cmd s2) param)))
         (posix s2) (stdout s2) (stderr s2) (kwargs s2) = (Return p, w3)"
      "Pipeline_run_call e w3 p inp asy = (Return (), w4)"
      "\<not> silence s2" "printResult self' w4 = (Raise x, w')"
      "r = Raise x" "self' = s2\<lparr>process := Some p\<rparr>"
  | (returned) s1 w1 s2 w2 p w3 w4 where
      "terminate e self w = (Return (), s1, w1)" "allocate s1 w1 = (s2, w2)"
      "Pipeline_new e w2 (fst (for_platform e (command_line (cmd s2) param)))
         (snd (for_platform e (command_line (cmd s2) param)))
         (posix s2) (stdout s2) (stderr s2) (kwargs s2) = (Return p, w3)"
      "Pipeline_run_call e w3 p inp asy = (Return (), w4)"
      "if silence s2 then w' = w4 else printResult self' w4 = (Return (), w')"
      "r = Return (Some p)" "self' = s2\<lparr>process := Some p\<rparr>"
proof -
  obtain r1 s1 w1 where t: "terminate e self w = (r1, s1, w1)"
    by (cases "terminate e self w") auto
  show thesis
  proof (cases r1)
    case (Raise x)
    with assms t have "r = Raise x" "self' = s1" "w' = w1"
      by (simp_all add: run_def)
    with t Raise show thesis by (auto intro: terminate_raised)
  next
    case (Return u)
    obtain s2 w2 where a: "allocate s1 w1 = (s2, w2)"
      by (cases "allocate s1 w1") auto
    define command where "command = fst (for_platform e (command_line (cmd s2) param))"
    define sh where "sh = snd (for_platform e (command_line (cmd s2) param))"
    obtain r3 w3 where n: "Pipeline_new e w2 command sh (posix s2) (stdout s2) (stderr s2) (kwargs s2) = (r3, w3)"
      by (cases "Pipeline_new e w2 command sh (posix s2) (stdout s2) (stderr s2) (kwargs s2)") auto
    have t': "terminate e self w = (Return (), s1, w1)" using t Return by simp
    show thesis
    proof (cases r3)
      case (Raise x)
      with assms t' a n have "r = Raise x" "self' = s2" "w' = w3"
        by (simp_all add: run_def command_def sh_def split_beta)
      with t' a n Raise show thesis
        unfolding command_def sh_def by (auto intro: init_raised)
    next
      case (Return p)
      note np = n[unfolded Return command_def sh_def]
      obtain r4 w4 where x: "Pipeline_run_call e w3 p inp asy = (r4, w4)"
        by (cases "Pipeline_run_call e w3 p inp asy") auto
      show thesis
      proof (cases r4)
        case (Raise x')
        with assms t' a np x have "r = Raise x'" "self' = s2\<lparr>process := Some p\<rparr>" "w' = w4"
          by (simp_all add: run_def split_beta)
        with t' a np x Raise show thesis by (auto intro: run_raised)
      next
        case (Return u')
        have x': "Pipeline_run_call e w3 p inp asy = (Return (), w4)" using x Return by simp
        show thesis
        proof (cases "silence s2")
          case True
          with assms t' a np x' have "r = Return (Some p)" "self' = s2\<lparr>process := Some p\<rparr>" "w' = w4"
            by (simp_all add: run_def split_beta get_process_def)
          with t' a np x' True show thesis
            using returned[of s1 w1 s2 w2 p w3 w4] by simp
        next
          case False
          obtain r5 w5 where pr: "printResult (s2\<lparr>process := Some p\<rparr>) w4 = (r5, w5)"
            by (cases "printResult (s2\<lparr>process := Some p\<rparr>) w4") auto
          show thesis
          proof (cases r5)
            case (Raise x'')
            with assms t' a np x' False pr have "r = Raise x''" "self' = s2\<lparr>process := Some p\<rparr>" "w' = w5"
              by (simp_all add: run_def split_beta)
            with t' a np x' False pr Raise show thesis
              using print_raised[of s1 w1 s2 w2 p w3 w4 x''] by simp
          next
            case (Return u'')
            with assms t' a np x' False pr have "r = Return (Some p)" "self' = s2\<lparr>process := Some p\<rparr>" "w' = w5"
              by (simp_all add: run_def split_beta get_process_def)
            with t' a np x' False pr Return show thesis
              using returned[of s1 w1 s2 w2 p w3 w4] by simp
          qed
        qed
      qed
    qed
  qed
qed

subsection \<open>Live pipelines\<close>

lemma map_update_same: "f x = f (xs ! i) \<Longrightarrow> map f (xs[i := x]) = map f xs"
  by (cases "i < length xs") (auto simp: map_update list_update_same_conv list_update_beyond)

lemma live_cong:
  assumes "map pl_closed (pipelines w') = map pl_closed (pipelines w)"
  shows "live w' = live w"
proof -
  have len: "length (pipelines w') = length (pipelines w)"
    using assms by (metis length_map)
  have "\<And>p. p < length (pipelines w) \<Longrightarrow> pl_closed (pipelines w' ! p) = pl_closed (pipelines w ! p)"
    using assms len by (metis nth_map)
  then show ?thesis
    unfolding live_def len by (intro filter_cong) auto
qed

lemma live_same: "pipelines w' = pipelines w \<Longrightarrow> live w' = live w"
  by (simp add: live_def)

lemma live_append:
  assumes "pipelines w' = pipelines w @ [obj]"
  shows "live w' = live w @ (if pl_closed obj then [] else [length (pipelines w)])"
proof -
  have "filter (\<lambda>p. \<not> pl_closed ((pipelines w @ [obj]) ! p)) [0..<length (pipelines w)]
        = filter (\<lambda>p. \<not> pl_closed (pipelines w ! p)) [0..<length (pipelines w)]"
    by (intro filter_cong) (auto simp: nth_append)
  then show ?thesis
    unfolding live_def assms by (simp add: nth_append)
qed

lemma live_close:
  assumes "pipelines w' = (pipelines w)[p := (pipelines w ! p)\<lparr>pl_closed := True\<rparr>]"
  shows "live w' = filter (\<lambda>q. q \<noteq> p) (live w)"
proof -
  have "filter (\<lambda>q. \<not> pl_closed ((pipelines w)[p := (pipelines w ! p)\<lparr>pl_closed := True\<rparr>] ! q)) [0..<length (pipelines w)]
        = filter (\<lambda>q. q \<noteq> p \<and> \<not> pl_closed (pipelines w ! q)) [0..<length (pipelines w)]"
  proof (intro filter_cong)
    fix q assume "q \<in> set [0..<length (pipelines w)]"
    then show "(\<not> pl_closed ((pipelines w)[p := (pipelines w ! p)\<lparr>pl_closed := True\<rparr>] ! q))
               = (q \<noteq> p \<and> \<not> pl_closed (pipelines w ! q))"
      by (cases "p < length (pipelines w)") (auto simp: nth_list_update list_update_beyond)
  qed simp
  then show ?thesis
    unfolding live_def assms by (simp add: conj_commute)
qed

lemma live_distinct: "distinct (live w)"
  by (simp add: live_def)

lemma owns_live_at_most_one:
  assumes "owns_live self w"
  shows "length (live w) \<le> 1"
proof (cases "process self")
  case None
  with assms show ?thesis by (simp add: owns_live_def)
next
  case (Some p)
  with assms have all: "\<forall>q \<in> set (live w). q = p"
    by (simp add: owns_live_def list_all_iff)
  show ?thesis
  proof (cases "live w")
    case Nil
    then show ?thesis by simp
  next
    case (Cons a xs)
    show ?thesis
    proof (cases xs)
      case Nil
      with Cons show ?thesis by simp
    next
      case (Cons b ys)
      with \<open>live w = a # xs\<close> all have "a = p" "b = p" by simp_all
      with live_distinct[of w] \<open>live w = a # xs\<close> Cons show ?thesis by simp
    qed
  qed
qed

subsection \<open>The effect of each step on the store\<close>

lemma allocate_effect:
  assumes "allocate s w = (s', w')"
  shows "s' = s\<lparr>stdout := stdout s', stderr := stderr s'\<rparr>"
    and "pipelines w' = pipelines w" and "console w' = console w"
    and "capture s \<Longrightarrow> stdout s' = Some (length (captures w)) \<and> stderr s' = Some (Suc (length (captures w)))"
    and "\<not> capture s \<Longrightarrow> s' = s \<and> w' = w"
    and "calls w' = calls w @ (if capture s then [Capture_init (length (captures w)), Capture_init (Suc (length (captures w)))] else [])"
  using assms unfolding allocate_def Capture_new_def
  by (auto simp: Let_def split: if_splits)

lemma Pipeline_new_Raise:
  assumes "Pipeline_new e w src sh px out err kw = (Raise x, w')"
  shows "w' = w"
  using assms unfolding Pipeline_new_def
  by (auto simp: Let_def split: if_splits option.splits)

lemma Pipeline_new_Return:
  assumes "Pipeline_new e w src sh px out err kw = (Return p, w')"
  shows "p = length (pipelines w)"
    and "\<exists>obj. pipelines w' = pipelines w @ [obj] \<and> source obj = src \<and> shell obj = sh \<and>
           pl_posix obj = px \<and> pl_stdout obj = out \<and> pl_stderr obj = err \<and> pl_kwargs obj = kw \<and>
           \<not> pl_closed obj"
    and "calls w' = calls w @ [Pipeline_init p]"
    and "captures w' = captures w" and "console w' = console w"
  using assms unfolding Pipeline_new_def
  by (auto simp: Let_def split: if_splits option.splits)

lemma Pipeline_run_call_effect:
  assumes "Pipeline_run_call e w p inp asy = (r, w')"
  shows "map pl_closed (pipelines w') = map pl_closed (pipelines w)"
    and "map source (pipelines w') = map source (pipelines w)"
    and "map shell (pipelines w') = map shell (pipelines w)"
    and "length (pipelines w') = length (pipelines w)"
    and "calls w' = calls w @ [Pipeline_run p]"
    and "console w' = console w"
  using assms unfolding Pipeline_run_call_def
  by (auto simp: Let_def map_update_same split: sum.splits prod.splits)

lemma foldl_print:
  "foldl (\<lambda>w' i. py_print w' (pre @ i) t) w xs
   = w\<lparr>console := console w @ concat (map (\<lambda>i. pre @ i @ t) xs)\<rparr>"
  by (induction xs arbitrary: w) (simp_all add: py_print_def)

lemma print_data_eq:
  "print_data w data =
     w\<lparr>console := console w @
        (case data of
           x # rest \<Rightarrow> x @ ''\<newline>'' @ concat (map (\<lambda>i. ''[]           : '' @ i @ ''\<newline>'') rest)
         | [] \<Rightarrow> ''\<newline>'')\<rparr>"
proof (cases data)
  case Nil
  then show ?thesis by (simp add: print_data_def py_print_def)
next
  case (Cons x rest)
  have "print_data w data =
          foldl (\<lambda>w' i. py_print w' (''[]           : '' @ i) ''\<newline>'') (py_print w x ''\<newline>'') rest"
    by (simp only: print_data_def Cons list.case)
  also have "\<dots> = (py_print w x ''\<newline>'')\<lparr>console := console (py_print w x ''\<newline>'') @
                 concat (map (\<lambda>i. ''[]           : '' @ i @ ''\<newline>'') rest)\<rparr>"
    by (rule foldl_print)
  also have "\<dots> = w\<lparr>console := console w @ (x @ ''\<newline>'' @
                 concat (map (\<lambda>i. ''[]           : '' @ i @ ''\<newline>'') rest))\<rparr>"
    by (simp add: py_print_def)
  finally show ?thesis by (simp only: Cons list.case)
qed

lemma printResult_effect:
  assumes "printResult s w = (r, w')"
  shows "pipelines w' = pipelines w" and "captures w' = captures w" and "calls w' = calls w"
  using assms unfolding printResult_def
  by (auto simp: Let_def print_data_eq py_print_def split: option.splits)

lemma terminate_pipelines:
  assumes "terminate e s w = (r, s', w')"
  shows "pipelines w' =
           (case process s of
              Some p \<Rightarrow> if process s' = None
                        then (pipelines w)[p := (pipelines w ! p)\<lparr>pl_closed := True\<rparr>]
                        else pipelines w
            | None \<Rightarrow> pipelines w)"
  using assms unfolding terminate_defs
  by (auto simp: Let_def split: option.splits prod.splits outcome.splits)

lemma terminate_frame_fields:
  assumes "terminate e s w = (r, s', w')"
  shows "cmd s' = cmd s" "posix s' = posix s" "kwargs s' = kwargs s" "silence s' = silence s"
    "capture s' = capture s" "stdout_encoding s' = stdout_encoding s"
    "stderr_encoding s' = stderr_encoding s"
  using assms unfolding terminate_defs
  by (auto simp: Let_def split: option.splits prod.splits outcome.splits)

lemma terminate_length:
  assumes "terminate e s w = (r, s', w')"
  shows "length (pipelines w') = length (pipelines w)" "length (captures w') = length (captures w)"
    "map source (pipelines w') = map source (pipelines w)"
    "map shell (pipelines w') = map shell (pipelines w)"
  using assms unfolding terminate_defs
  by (auto simp: Let_def map_update_same split: option.splits prod.splits outcome.splits)

lemma allocate_frame_fields:
  assumes "allocate s w = (s', w')"
  shows "cmd s' = cmd s" "posix s' = posix s" "kwargs s' = kwargs s" "silence s' = silence s"
    "capture s' = capture s" "stdout_encoding s' = stdout_encoding s"
    "stderr_encoding s' = stderr_encoding s" "process s' = process s"
  using assms unfolding allocate_def Capture_new_def
  by (auto simp: Let_def split: if_splits)

text \<open>What \<open>run\<close> does to the list of Pipeline objects: nothing is removed, at most one is
  added, and the one added carries the command line and the shell flag of lines 75-84.\<close>

lemma run_pipelines:
  assumes "run e s w param msg inp asy = (r, s', w')"
  shows "length (pipelines w') = length (pipelines w) \<and> (\<forall>v. r \<noteq> Return v)
       \<or> length (pipelines w') = Suc (length (pipelines w)) \<and>
         process s' = Some (length (pipelines w)) \<and>
         (\<forall>v. r = Return v \<longrightarrow> v = Some (length (pipelines w))) \<and>
         source (pipelines w' ! length (pipelines w)) = fst (for_platform e (command_line (cmd s) param)) \<and>
         shell (pipelines w' ! length (pipelines w)) = snd (for_platform e (command_line (cmd s) param))"
  using assms
proof (cases rule: run_cases)
  case (terminate_raised x)
  then show ?thesis using terminate_length(1) by blast
next
  case (init_raised s1 w1 s2 w2 x)
  then show ?thesis
    using terminate_length(1) allocate_effect(2) Pipeline_new_Raise by (metis outcome.distinct(1))
next
  case (run_raised s1 w1 s2 w2 p w3 x)
  let ?src = "fst (for_platform e (command_line (cmd s2) param))"
  let ?sh = "snd (for_platform e (command_line (cmd s2) param))"
  have c: "cmd s2 = cmd s"
    using terminate_frame_fields(1)[OF run_raised(1)] allocate_frame_fields(1)[OF run_raised(2)] by simp
  have l2: "length (pipelines w2) = length (pipelines w)"
    using terminate_length(1)[OF run_raised(1)] allocate_effect(2)[OF run_raised(2)] by simp
  from Pipeline_new_Return[OF run_raised(3)] obtain obj where
    p: "p = length (pipelines w2)" and o: "pipelines w3 = pipelines w2 @ [obj]"
      "source obj = ?src" "shell obj = ?sh" by blast
  have "map source (pipelines w') ! p = map source (pipelines w3) ! p"
       "map shell (pipelines w') ! p = map shell (pipelines w3) ! p"
       "length (pipelines w') = length (pipelines w3)"
    using Pipeline_run_call_effect[OF run_raised(4)] by simp_all
  then show ?thesis using p o l2 c run_raised(5,6) by (simp add: nth_append)
next
  case (print_raised s1 w1 s2 w2 p w3 w4 x)
  let ?src = "fst (for_platform e (command_line (cmd s2) param))"
  let ?sh = "snd (for_platform e (command_line (cmd s2) param))"
  have c: "cmd s2 = cmd s"
    using terminate_frame_fields(1)[OF print_raised(1)] allocate_frame_fields(1)[OF print_raised(2)] by simp
  have l2: "length (pipelines w2) = length (pipelines w)"
    using terminate_length(1)[OF print_raised(1)] allocate_effect(2)[OF print_raised(2)] by simp
  from Pipeline_new_Return[OF print_raised(3)] obtain obj where
    p: "p = length (pipelines w2)" and o: "pipelines w3 = pipelines w2 @ [obj]"
      "source obj = ?src" "shell obj = ?sh" by blast
  have "map source (pipelines w4) ! p = map source (pipelines w3) ! p"
       "map shell (pipelines w4) ! p = map shell (pipelines w3) ! p"
       "length (pipelines w4) = length (pipelines w3)"
    using Pipeline_run_call_effect[OF print_raised(4)] by simp_all
  moreover have "pipelines w' = pipelines w4"
    using printResult_effect(1)[OF print_raised(6)] .
  ultimately show ?thesis using p o l2 c print_raised(7,8) by (simp add: nth_append)
next
  case (returned s1 w1 s2 w2 p w3 w4)
  let ?src = "fst (for_platform e (command_line (cmd s2) param))"
  let ?sh = "snd (for_platform e (command_line (cmd s2) param))"
  have c: "cmd s2 = cmd s"
    using terminate_frame_fields(1)[OF returned(1)] allocate_frame_fields(1)[OF returned(2)] by simp
  have l2: "length (pipelines w2) = length (pipelines w)"
    using terminate_length(1)[OF returned(1)] allocate_effect(2)[OF returned(2)] by simp
  from Pipeline_new_Return[OF returned(3)] obtain obj where
    p: "p = length (pipelines w2)" and o: "pipelines w3 = pipelines w2 @ [obj]"
      "source obj = ?src" "shell obj = ?sh" by blast
  have "map source (pipelines w4) ! p = map source (pipelines w3) ! p"
       "map shell (pipelines w4) ! p = map shell (pipelines w3) ! p"
       "length (pipelines w4) = length (pipelines w3)"
    using Pipeline_run_call_effect[OF returned(4)] by simp_all
  moreover have "pipelines w' = pipelines w4"
    using returned(5) printResult_effect(1) by (cases "silence s2") auto
  ultimately show ?thesis using p o l2 c returned(6,7) by (simp add: nth_append)
qed

subsection \<open>\<open>terminate\<close> and the attributes\<close>

lemma terminate_Return_nulls:
  assumes "terminate e self w = (Return u, self', w')"
  shows "stdout self' = None \<and> stderr self' = None \<and> process self' = None"
  using assms unfolding terminate_defs
  by (auto simp: Let_def split: option.splits prod.splits outcome.splits)

lemma terminate_idle:
  assumes "stdout self = None" "stderr self = None" "process self = None"
  shows "terminate e self w = (Return (), self, w)"
  using assms unfolding terminate_defs by simp

lemma terminate_fields:
  assumes "terminate e self w = (r, self', w')"
  shows "stdout self' = None \<or> stdout self' = stdout self"
    "stderr self' = None \<or> stderr self' = stderr self"
    "process self' = None \<or> process self' = process self"
  using assms unfolding terminate_defs
  by (auto simp: Let_def split: option.splits prod.splits outcome.splits)

lemma terminate_console:
  assumes "terminate e self w = (r, self', w')"
  shows "console w' = console w"
  using assms unfolding terminate_defs
  by (auto simp: Let_def split: option.splits prod.splits outcome.splits)

lemma terminate_raises_library:
  assumes "terminate e s w = (Raise x, s', w')"
  shows "\<exists>m. x = LibraryError m"
  using assms unfolding terminate_defs
  by (auto simp: Let_def split: option.splits prod.splits outcome.splits)

lemma terminate_calls:
  assumes "terminate e s w = (r, s', w')"
  shows "\<exists>cs. calls w' = calls w @ cs \<and> prefix cs (due_closes s) \<and> (r = Return () \<longrightarrow> cs = due_closes s)"
  using assms unfolding terminate_defs due_closes_def
  by (auto simp: Let_def split: option.splits prod.splits outcome.splits)

lemma due_closes_close: "list_all is_close (due_closes s)"
  by (simp add: due_closes_def split: option.splits)

subsection \<open>\<open>run\<close> and the attributes\<close>

lemma run_frame_fields:
  assumes "run e s w param msg inp asy = (r, s', w')"
  shows "cmd s' = cmd s \<and> posix s' = posix s \<and> kwargs s' = kwargs s \<and> silence s' = silence s \<and>
    capture s' = capture s \<and> stdout_encoding s' = stdout_encoding s \<and>
    stderr_encoding s' = stderr_encoding s"
  using assms
proof (cases rule: run_cases)
  case (terminate_raised x)
  then show ?thesis using terminate_frame_fields[OF terminate_raised(1)] by simp
next
  case (init_raised s1 w1 s2 w2 x)
  then show ?thesis
    using terminate_frame_fields[OF init_raised(1)] allocate_frame_fields[OF init_raised(2)] by simp
next
  case (run_raised s1 w1 s2 w2 p w3 x)
  then show ?thesis
    using terminate_frame_fields[OF run_raised(1)] allocate_frame_fields[OF run_raised(2)] by simp
next
  case (print_raised s1 w1 s2 w2 p w3 w4 x)
  then show ?thesis
    using terminate_frame_fields[OF print_raised(1)] allocate_frame_fields[OF print_raised(2)] by simp
next
  case (returned s1 w1 s2 w2 p w3 w4)
  then show ?thesis
    using terminate_frame_fields[OF returned(1)] allocate_frame_fields[OF returned(2)] by simp
qed

text \<open>After the \<open>terminate\<close> inside \<open>run\<close> has returned, the two capture attributes are
  what lines 71-73 made them.\<close>

lemma run_captures:
  assumes "run e s w param msg inp asy = (r, s', w')"
  shows "(\<exists>x. terminate e s w = (Raise x, s', w') \<and> r = Raise x)
       \<or> (if capture s
           then stdout s' = Some (length (captures w)) \<and> stderr s' = Some (Suc (length (captures w)))
           else stdout s' = None \<and> stderr s' = None)"
  using assms
proof (cases rule: run_cases)
  case (terminate_raised x)
  then show ?thesis by blast
next
  case (init_raised s1 w1 s2 w2 x)
  then show ?thesis
    using terminate_Return_nulls[OF init_raised(1)] terminate_frame_fields(5)[OF init_raised(1)]
      terminate_length(2)[OF init_raised(1)] allocate_effect(4,5)[OF init_raised(2)]
    by (cases "capture s") auto
next
  case (run_raised s1 w1 s2 w2 p w3 x)
  then show ?thesis
    using terminate_Return_nulls[OF run_raised(1)] terminate_frame_fields(5)[OF run_raised(1)]
      terminate_length(2)[OF run_raised(1)] allocate_effect(4,5)[OF run_raised(2)]
    by (cases "capture s") auto
next
  case (print_raised s1 w1 s2 w2 p w3 w4 x)
  then show ?thesis
    using terminate_Return_nulls[OF print_raised(1)] terminate_frame_fields(5)[OF print_raised(1)]
      terminate_length(2)[OF print_raised(1)] allocate_effect(4,5)[OF print_raised(2)]
    by (cases "capture s") auto
next
  case (returned s1 w1 s2 w2 p w3 w4)
  then show ?thesis
    using terminate_Return_nulls[OF returned(1)] terminate_frame_fields(5)[OF returned(1)]
      terminate_length(2)[OF returned(1)] allocate_effect(4,5)[OF returned(2)]
    by (cases "capture s") auto
qed

lemma reachable_no_capture:
  assumes "reachable e s w"
  shows "\<not> capture s \<longrightarrow> stdout s = None \<and> stderr s = None"
  using assms
proof (induction rule: reachable.induct)
  case (constructed w cmd' posix' silence' capture' kwargs')
  show ?case by (simp add: init_def Let_def split: option.splits)
next
  case (ran self w param msg inp asy r self' w')
  from run_captures[OF ran(2)] run_frame_fields[OF ran(2)] terminate_fields(1,2)[of e self w _ self' w'] ran(3)
  show ?case by (metis)
next
  case (terminated self w r self' w')
  from terminate_fields(1,2)[OF terminated(2)] terminate_frame_fields(5)[OF terminated(2)] terminated(3)
  show ?case by metis
qed

subsection \<open>The report\<close>

lemma printResult_Return:
  assumes "printResult s w = (Return u, w')"
  shows "\<exists>p rc c d. process s = Some p \<and> returncode (pipelines w ! p) = Some rc \<and>
           stdout s = Some c \<and> stderr s = Some d \<and>
           console w' = console w @ ''[] ** START **'' @ ''\<newline>'' @
             (''[] Command   : '' @ source (pipelines w ! p)) @ ''\<newline>'' @
             (''[] Exit Code : '' @ format_d rc) @ ''\<newline>'' @
             ''[] STDOUT    :'' @ '' '' @
             (case split_nl (cap_text (captures w ! c)) of
                x # rest \<Rightarrow> x @ ''\<newline>'' @ concat (map (\<lambda>i. ''[]           : '' @ i @ ''\<newline>'') rest)
              | [] \<Rightarrow> ''\<newline>'') @
             ''[] STDERR    :'' @ '' '' @
             (case split_nl (cap_text (captures w ! d)) of
                x # rest \<Rightarrow> x @ ''\<newline>'' @ concat (map (\<lambda>i. ''[]           : '' @ i @ ''\<newline>'') rest)
              | [] \<Rightarrow> ''\<newline>'') @
             ''[] ** E N D **'' @ ''\<newline>'' @ '''' @ ''\<newline>''"
  using assms unfolding printResult_def
  by (auto simp: Let_def print_data_eq py_print_def split: option.splits)

lemma run_console:
  assumes "run e s w param msg inp asy = (Return v, s', w')"
  shows "if silence s then console w' = console w
         else \<exists>w4. printResult s' w4 = (Return (), w') \<and> console w4 = console w \<and>
                pipelines w4 = pipelines w' \<and> captures w4 = captures w'"
  using assms
proof (cases rule: run_cases)
  case (returned s1 w1 s2 w2 p w3 w4)
  have sil: "silence s2 = silence s"
    using terminate_frame_fields(4)[OF returned(1)] allocate_frame_fields(4)[OF returned(2)] by simp
  have con: "console w4 = console w"
    using terminate_console[OF returned(1)] allocate_effect(3)[OF returned(2)]
      Pipeline_new_Return(5)[OF returned(3)] Pipeline_run_call_effect(6)[OF returned(4)] by simp
  show ?thesis
  proof (cases "silence s")
    case True
    with sil returned(5) con show ?thesis by simp
  next
    case False
    with sil returned(5) have pr: "printResult s' w4 = (Return (), w')" by simp
    from printResult_effect[OF pr] con pr False show ?thesis by auto
  qed
qed simp_all

lemma split_abc: "split_nl ''a\<newline>b\<newline>c'' = [''a'', ''b'', ''c'']"
  by simp

lemma format_zero: "format_d 0 = ''0''"
  by (simp add: format_d_def)

subsection \<open>The live pipeline through \<open>terminate\<close> and \<open>run\<close>\<close>

lemma filter_all_eq: "list_all (\<lambda>q. q = p) xs \<Longrightarrow> filter (\<lambda>q. q \<noteq> p) xs = []"
  by (induction xs) simp_all

lemma terminate_owns:
  assumes "owns_live s w" and "terminate e s w = (r, s', w')"
  shows "owns_live s' w'" and "r = Return () \<Longrightarrow> live w' = []"
proof -
  note pl = terminate_pipelines[OF assms(2)]
  note pr = terminate_fields(3)[OF assms(2)]
  have "owns_live s' w' \<and> (r = Return () \<longrightarrow> live w' = [])"
  proof (cases "process s")
    case None
    with pr have n: "process s' = None" by simp
    from pl None have "pipelines w' = pipelines w" by simp
    from live_same[OF this] assms(1) None have "live w' = []" by (simp add: owns_live_def)
    with n show ?thesis by (simp add: owns_live_def)
  next
    case (Some p)
    with assms(1) have o: "p < length (pipelines w)" "list_all (\<lambda>q. q = p) (live w)"
      by (simp_all add: owns_live_def)
    show ?thesis
    proof (cases "process s'")
      case None
      with pl Some have "pipelines w' = (pipelines w)[p := (pipelines w ! p)\<lparr>pl_closed := True\<rparr>]"
        by simp
      from live_close[OF this] filter_all_eq[OF o(2)] have "live w' = []" by simp
      with None show ?thesis by (simp add: owns_live_def)
    next
      case (Some p')
      with pr \<open>process s = Some p\<close> have eq: "p' = p" by simp
      from pl Some \<open>process s = Some p\<close> have same: "pipelines w' = pipelines w" by simp
      have nr: "r \<noteq> Return ()"
        using terminate_Return_nulls[of e s w "()" s' w'] assms(2) Some by auto
      from live_same[OF same] o same have "p < length (pipelines w')" "list_all (\<lambda>q. q = p) (live w')"
        by simp_all
      with Some eq nr show ?thesis by (simp add: owns_live_def)
    qed
  qed
  then show "owns_live s' w'" and "r = Return () \<Longrightarrow> live w' = []" by simp_all
qed

text \<open>Lines 71-88 in a state that \<open>terminate\<close> has just left: the new Pipeline is the
  only live one.\<close>

lemma construct_live:
  assumes "live w1 = []" and "allocate s1 w1 = (s2, w2)"
    and "Pipeline_new e w2 src sh px out err kw = (Return p, w3)"
  shows "live w3 = [p]" and "p = length (pipelines w1)" and "length (pipelines w3) = Suc p"
proof -
  have same: "pipelines w2 = pipelines w1" using allocate_effect(2)[OF assms(2)] .
  from Pipeline_new_Return[OF assms(3)] obtain obj where
    p: "p = length (pipelines w2)" and o: "pipelines w3 = pipelines w2 @ [obj]" "\<not> pl_closed obj"
    by blast
  from live_append[OF o(1)] o(2) p assms(1) live_same[OF same]
  show "live w3 = [p]" by simp
  from p same show "p = length (pipelines w1)" by simp
  from p o(1) show "length (pipelines w3) = Suc p" by simp
qed

lemma run_owns:
  assumes "owns_live s w" and "run e s w param msg inp asy = (r, s', w')"
  shows "owns_live s' w'" and "r = Return v \<Longrightarrow> live w' = [length (pipelines w)]"
proof -
  have "owns_live s' w' \<and> (r = Return v \<longrightarrow> live w' = [length (pipelines w)])"
    using assms(2)
  proof (cases rule: run_cases)
    case (terminate_raised x)
    then show ?thesis using terminate_owns(1)[OF assms(1) terminate_raised(1)] by simp
  next
    case (init_raised s1 w1 s2 w2 x)
    have "live w1 = []" using terminate_owns(2)[OF assms(1) init_raised(1)] by simp
    moreover have "pipelines w' = pipelines w1"
      using allocate_effect(2)[OF init_raised(2)] Pipeline_new_Raise[OF init_raised(3)] by simp
    ultimately have "live w' = []" using live_same[of w' w1] by simp
    moreover have "process s' = None"
      using terminate_Return_nulls[OF init_raised(1)] allocate_frame_fields(8)[OF init_raised(2)]
        init_raised(5) by simp
    ultimately show ?thesis using init_raised(4) by (simp add: owns_live_def)
  next
    case (run_raised s1 w1 s2 w2 p w3 x)
    have l1: "live w1 = []" using terminate_owns(2)[OF assms(1) run_raised(1)] by simp
    note c = construct_live[OF l1 run_raised(2,3)]
    note x = Pipeline_run_call_effect[OF run_raised(4)]
    have "live w' = [p]" using live_cong[OF x(1)] c(1) by simp
    moreover have "p < length (pipelines w')" using x(4) c(3) by simp
    ultimately show ?thesis using run_raised(5,6) by (simp add: owns_live_def)
  next
    case (print_raised s1 w1 s2 w2 p w3 w4 x)
    have l1: "live w1 = []" using terminate_owns(2)[OF assms(1) print_raised(1)] by simp
    note c = construct_live[OF l1 print_raised(2,3)]
    note x = Pipeline_run_call_effect[OF print_raised(4)]
    note pr = printResult_effect(1)[OF print_raised(6)]
    have "live w' = [p]" using live_cong[OF x(1)] live_same[OF pr] c(1) by simp
    moreover have "p < length (pipelines w')" using x(4) c(3) pr by simp
    ultimately show ?thesis using print_raised(7,8) by (simp add: owns_live_def)
  next
    case (returned s1 w1 s2 w2 p w3 w4)
    have l1: "live w1 = []" using terminate_owns(2)[OF assms(1) returned(1)] by simp
    note c = construct_live[OF l1 returned(2,3)]
    note x = Pipeline_run_call_effect[OF returned(4)]
    have pr: "pipelines w' = pipelines w4"
      using returned(5) printResult_effect(1) by (cases "silence s2") auto
    have "live w' = [p]" using live_cong[OF x(1)] live_same[OF pr] c(1) by simp
    moreover have "p < length (pipelines w')" using x(4) c(3) pr by simp
    moreover have "p = length (pipelines w)" using c(2) terminate_length(1)[OF returned(1)] by simp
    ultimately show ?thesis using returned(6,7) by (simp add: owns_live_def)
  qed
  then show "owns_live s' w'" and "r = Return v \<Longrightarrow> live w' = [length (pipelines w)]"
    by simp_all
qed

lemma reachable_owns:
  assumes "reachable e s w"
  shows "owns_live s w"
  using assms
proof (induction rule: reachable.induct)
  case (constructed w cmd' posix' silence' capture' kwargs')
  then show ?case by (simp add: owns_live_def init_def Let_def split: option.splits)
next
  case (ran self w param msg inp asy r self' w')
  then show ?case using run_owns(1) by blast
next
  case (terminated self w r self' w')
  then show ?case using terminate_owns(1) by blast
qed

lemma prefix_list_all: "prefix cs xs \<Longrightarrow> list_all P xs \<Longrightarrow> list_all P cs"
  by (auto simp: prefix_def)

text \<open>The library calls of one \<open>run\<close>: those of its \<open>terminate\<close> first, then no close.\<close>

lemma run_calls:
  assumes "run e s w param msg inp asy = (r, s', w')"
  shows "\<exists>r1 s1 w1 rest. terminate e s w = (r1, s1, w1) \<and> calls w' = calls w1 @ rest \<and>
           list_all (\<lambda>c. \<not> is_close c) rest \<and>
           (\<forall>x. r1 = Raise x \<longrightarrow> r = Raise x \<and> s' = s1 \<and> w' = w1)"
  using assms
proof (cases rule: run_cases)
  case (terminate_raised x)
  then show ?thesis by auto
next
  case (init_raised s1 w1 s2 w2 x)
  have "calls w' = calls w1 @ (if capture s1 then [Capture_init (length (captures w1)),
          Capture_init (Suc (length (captures w1)))] else [])"
    using allocate_effect(6)[OF init_raised(2)] Pipeline_new_Raise[OF init_raised(3)] by simp
  with init_raised(1,4) show ?thesis by auto
next
  case (run_raised s1 w1 s2 w2 p w3 x)
  have "calls w' = calls w1 @ ((if capture s1 then [Capture_init (length (captures w1)),
          Capture_init (Suc (length (captures w1)))] else []) @ [Pipeline_init p, Pipeline_run p])"
    using allocate_effect(6)[OF run_raised(2)] Pipeline_new_Return(3)[OF run_raised(3)]
      Pipeline_run_call_effect(5)[OF run_raised(4)] by simp
  with run_raised(1,5) show ?thesis by auto
next
  case (print_raised s1 w1 s2 w2 p w3 w4 x)
  have "calls w' = calls w1 @ ((if capture s1 then [Capture_init (length (captures w1)),
          Capture_init (Suc (length (captures w1)))] else []) @ [Pipeline_init p, Pipeline_run p])"
    using allocate_effect(6)[OF print_raised(2)] Pipeline_new_Return(3)[OF print_raised(3)]
      Pipeline_run_call_effect(5)[OF print_raised(4)] printResult_effect(3)[OF print_raised(6)]
    by simp
  with print_raised(1,7) show ?thesis by auto
next
  case (returned s1 w1 s2 w2 p w3 w4)
  have c4: "calls w' = calls w4"
    using returned(5) printResult_effect(3) by (cases "silence s2") auto
  have "calls w' = calls w1 @ ((if capture s1 then [Capture_init (length (captures w1)),
          Capture_init (Suc (length (captures w1)))] else []) @ [Pipeline_init p, Pipeline_run p])"
    using allocate_effect(6)[OF returned(2)] Pipeline_new_Return(3)[OF returned(3)]
      Pipeline_run_call_effect(5)[OF returned(4)] c4 by simp
  with returned(1,6) show ?thesis by auto
qed

lemma run_Return_calls:
  assumes "run e s w param msg inp asy = (Return v, s', w')"
  shows "\<exists>s1 w1. terminate e s w = (Return (), s1, w1) \<and>
           calls w' = calls w1 @
             (if capture s
              then [Capture_init (length (captures w)), Capture_init (Suc (length (captures w)))]
              else []) @
             [Pipeline_init (length (pipelines w)), Pipeline_run (length (pipelines w))]"
  using assms
proof (cases rule: run_cases)
  case (returned s1 w1 s2 w2 p w3 w4)
  have c4: "calls w' = calls w4"
    using returned(5) printResult_effect(3) by (cases "silence s2") auto
  have p: "p = length (pipelines w)"
    using Pipeline_new_Return(1)[OF returned(3)] allocate_effect(2)[OF returned(2)]
      terminate_length(1)[OF returned(1)] by simp
  have "calls w' = calls w1 @ ((if capture s then [Capture_init (length (captures w)),
          Capture_init (Suc (length (captures w)))] else []) @ [Pipeline_init p, Pipeline_run p])"
    using allocate_effect(6)[OF returned(2)] Pipeline_new_Return(3)[OF returned(3)]
      Pipeline_run_call_effect(5)[OF returned(4)] c4 terminate_length(2)[OF returned(1)]
      terminate_frame_fields(5)[OF returned(1)]
    by simp
  with returned(1) p show ?thesis by simp
qed simp_all

subsection \<open>The example states, evaluated\<close>

lemmas fixture_defs = posix_env_def windows_env_def rewrapped_env_def empty_world_def
  foo_cmd_def foo_loud_def foo_nocapture_def init_def

lemmas run_defs = run_def terminate_defs allocate_def Capture_new_def Pipeline_new_def
  Pipeline_run_call_def feed_def command_line_def for_platform_def get_process_def

lemma run_foo_posix:
  "run posix_env (foo_cmd posix_env) empty_world (Some ''-l'') PyNone PyNone False
   = (Return (Some 0), foo_started, world_started)"
  by (simp add: fixture_defs run_defs foo_started_def world_started_def)

lemma terminate_foo_started:
  "terminate posix_env foo_started world_started
   = (Return (), foo_started\<lparr>process := None, stdout := None, stderr := None\<rparr>,
      world_started\<lparr>captures := map (\<lambda>c. c\<lparr>cap_closed := True\<rparr>) (captures world_started),
                     pipelines := map (\<lambda>c. c\<lparr>pl_closed := True\<rparr>) (pipelines world_started),
                     calls := calls world_started @ [Capture_close 0, Capture_close 1, Pipeline_close 0]\<rparr>)"
  by (simp add: fixture_defs terminate_defs foo_started_def world_started_def)

lemma terminate_foo_stopped:
  "terminate posix_env foo_started world_started = (Return (), foo_stopped, world_stopped)"
  by (simp add: terminate_foo_started foo_stopped_def world_stopped_def)

lemma live_empty_world: "live empty_world = []"
  by (simp add: live_def empty_world_def)

lemma run_foo_loud:
  "run posix_env (foo_loud posix_env) empty_world (Some ''-l'') PyNone PyNone False
   = (Return (Some 0), foo_started\<lparr>silence := False\<rparr>,
      world_started\<lparr>console :=
        ''[] ** START **\<newline>[] Command   : foo -l\<newline>[] Exit Code : 0\<newline>[] STDOUT    : a\<newline>[]           : b\<newline>[]           : c\<newline>[] STDERR    : \<newline>[] ** E N D **\<newline>\<newline>''\<rparr>)"
  by (simp add: fixture_defs run_defs foo_started_def world_started_def printResult_def
      print_data_def py_print_def format_d_def)

lemma run_foo_again:
  "fst (run posix_env foo_started world_started None PyNone PyNone False) = Return (Some 1)"
  "live (snd (snd (run posix_env foo_started world_started None PyNone PyNone False))) = [1]"
  "calls (snd (snd (run posix_env foo_started world_started None PyNone PyNone False)))
     = calls world_started @
       [Capture_close 0, Capture_close 1, Pipeline_close 0,
        Capture_init 2, Capture_init 3, Pipeline_init 1, Pipeline_run 1]"
  "map pl_closed (pipelines (snd (snd (run posix_env foo_started world_started None PyNone PyNone False))))
     = [True, False]"
  by (simp_all add: fixture_defs run_defs foo_started_def world_started_def live_def)

section \<open>The claims\<close>

subsection \<open>C1: the encodings resolved at construction\<close>

text \<open>
  C1, as amended. For every construction without an \<open>encoding\<close> option, when the
  encodings of \<open>sys.stdout\<close> and \<open>sys.stderr\<close> are both defined, the resolved stdout
  encoding is the encoding of \<open>sys.stdout\<close> and the resolved stderr encoding is the
  encoding of \<open>sys.stderr\<close> (lines 49-51): each stream keeps its own, and the two resolved
  encodings are equal exactly when the two stream encodings are.
\<close>

theorem init_stream_encodings:
  assumes "kw ''encoding'' = None"
    and "sys_stdout_encoding e = Some out_enc" and "sys_stderr_encoding e = Some err_enc"
  shows "stdout_encoding (init e c px s cap kw) = PyStr out_enc \<and>
         stderr_encoding (init e c px s cap kw) = PyStr err_enc \<and>
         (stdout_encoding (init e c px s cap kw) = stderr_encoding (init e c px s cap kw)
            \<longleftrightarrow> out_enc = err_enc)"
  using assms by (simp add: init_def)

text \<open>An instance: UTF-8 on both streams.\<close>

theorem init_stream_encodings_witness:
  "Map.empty ''encoding'' = (None :: pyval option) \<and>
   sys_stdout_encoding posix_env = Some ''utf-8'' \<and> sys_stderr_encoding posix_env = Some ''utf-8'' \<and>
   stdout_encoding (init posix_env ''foo'' None True True Map.empty) = PyStr ''utf-8'' \<and>
   stderr_encoding (init posix_env ''foo'' None True True Map.empty) = PyStr ''utf-8'' \<and>
   stdout_encoding (init posix_env ''foo'' None True True Map.empty)
     = stderr_encoding (init posix_env ''foo'' None True True Map.empty)"
  using init_stream_encodings[of Map.empty posix_env "''utf-8''" "''utf-8''" "''foo''" None True True]
  by (simp add: posix_env_def)

text \<open>
  The claim as stated (the two resolved encodings are always equal) fails where the streams
  differ: \<open>sys.stdout\<close> rewrapped as UTF-8 on a cp1252 host, no \<open>encoding\<close> option.
\<close>

theorem init_encodings_differ_counterexample:
  "Map.empty ''encoding'' = (None :: pyval option) \<and>
   sys_stdout_encoding rewrapped_env = Some ''utf-8'' \<and>
   sys_stderr_encoding rewrapped_env = Some ''cp1252'' \<and>
   stdout_encoding (init rewrapped_env ''foo'' None True True Map.empty) = PyStr ''utf-8'' \<and>
   stderr_encoding (init rewrapped_env ''foo'' None True True Map.empty) = PyStr ''cp1252'' \<and>
   stdout_encoding (init rewrapped_env ''foo'' None True True Map.empty)
     \<noteq> stderr_encoding (init rewrapped_env ''foo'' None True True Map.empty)"
  by (simp add: fixture_defs)

subsection \<open>C2: the command line and the shell flag on each platform\<close>

text \<open>
  C2. For every run of an object with program path \<open>"foo"\<close> and parameters \<open>"-l"\<close>, whatever
  its other attributes, the store, the other arguments and the outcome: every Pipeline the
  call constructs has the source \<open>"foo -l & exit"\<close> and \<open>shell=True\<close> when
  \<open>platform.system()\<close> is \<open>"Windows"\<close>, and the source \<open>"foo -l"\<close> and \<open>shell=None\<close> on
  every other platform; and a call that returns has constructed exactly one, the one it
  returns and stores in \<open>process\<close>.
\<close>

theorem run_foo_platform_command:
  assumes "cmd self = ''foo''"
    and "run e self w (Some ''-l'') msg inp asy = (r, self', w')"
  shows "(\<forall>q. length (pipelines w) \<le> q \<and> q < length (pipelines w') \<longrightarrow>
            (if platform_system e = ''Windows''
             then source (pipelines w' ! q) = ''foo -l & exit'' \<and> shell (pipelines w' ! q) = Some True
             else source (pipelines w' ! q) = ''foo -l'' \<and> shell (pipelines w' ! q) = None)) \<and>
         (\<forall>v. r = Return v \<longrightarrow>
            v = Some (length (pipelines w)) \<and> process self' = Some (length (pipelines w)) \<and>
            length (pipelines w') = Suc (length (pipelines w)))"
proof -
  have f: "for_platform e (command_line (cmd self) (Some ''-l'')) =
             (if platform_system e = ''Windows'' then (''foo -l & exit'', Some True)
              else (''foo -l'', None))"
    using assms(1) by (simp add: for_platform_def command_line_def)
  from run_pipelines[OF assms(2)] show ?thesis
  proof
    assume "length (pipelines w') = length (pipelines w) \<and> (\<forall>v. r \<noteq> Return v)"
    then show ?thesis by auto
  next
    assume a: "length (pipelines w') = Suc (length (pipelines w)) \<and>
         process self' = Some (length (pipelines w)) \<and>
         (\<forall>v. r = Return v \<longrightarrow> v = Some (length (pipelines w))) \<and>
         source (pipelines w' ! length (pipelines w)) = fst (for_platform e (command_line (cmd self) (Some ''-l''))) \<and>
         shell (pipelines w' ! length (pipelines w)) = snd (for_platform e (command_line (cmd self) (Some ''-l'')))"
    show ?thesis
    proof (intro conjI allI impI)
      fix q assume "length (pipelines w) \<le> q \<and> q < length (pipelines w')"
      with a have "q = length (pipelines w)" by simp
      with a f show "if platform_system e = ''Windows''
             then source (pipelines w' ! q) = ''foo -l & exit'' \<and> shell (pipelines w' ! q) = Some True
             else source (pipelines w' ! q) = ''foo -l'' \<and> shell (pipelines w' ! q) = None"
        by (cases "platform_system e = ''Windows''") simp_all
    qed (use a in simp_all)
  qed
qed

text \<open>Instances: the run on \<open>windows_env\<close> and the run on \<open>posix_env\<close>.\<close>

theorem run_foo_platform_command_witness:
  "cmd (foo_cmd windows_env) = ''foo'' \<and> platform_system windows_env = ''Windows'' \<and>
   fst (run windows_env (foo_cmd windows_env) empty_world (Some ''-l'') PyNone PyNone False)
     = Return (Some 0) \<and>
   length (pipelines (snd (snd (run windows_env (foo_cmd windows_env) empty_world (Some ''-l'') PyNone PyNone False)))) = 1 \<and>
   source (pipelines (snd (snd (run windows_env (foo_cmd windows_env) empty_world (Some ''-l'') PyNone PyNone False))) ! 0)
     = ''foo -l & exit'' \<and>
   shell (pipelines (snd (snd (run windows_env (foo_cmd windows_env) empty_world (Some ''-l'') PyNone PyNone False))) ! 0)
     = Some True \<and>
   cmd (foo_cmd posix_env) = ''foo'' \<and> platform_system posix_env = ''Linux'' \<and>
   run posix_env (foo_cmd posix_env) empty_world (Some ''-l'') PyNone PyNone False
     = (Return (Some 0), foo_started, world_started) \<and>
   source (pipelines world_started ! 0) = ''foo -l'' \<and> shell (pipelines world_started ! 0) = None"
proof -
  let ?r = "run windows_env (foo_cmd windows_env) empty_world (Some ''-l'') PyNone PyNone False"
  have c: "cmd (foo_cmd windows_env) = ''foo''" "cmd (foo_cmd posix_env) = ''foo''"
    by (simp_all add: fixture_defs)
  have r: "?r = (fst ?r, fst (snd ?r), snd (snd ?r))" by simp
  have w: "fst ?r = Return (Some 0)" "platform_system windows_env = ''Windows''"
    by (simp_all add: fixture_defs run_defs)
  have l: "length (pipelines empty_world) = 0" "platform_system posix_env = ''Linux''"
    by (simp_all add: fixture_defs)
  show ?thesis
    using run_foo_platform_command[OF c(1) r] run_foo_platform_command[OF c(2) run_foo_posix] c w l
      run_foo_posix
    by simp
qed

subsection \<open>C3: \<open>run\<close> terminates first, one live Pipeline\<close>

text \<open>
  C3. Every \<open>run\<close> calls \<open>terminate\<close> first, on the state it was called in: the library
  calls of the run are the close calls of that \<open>terminate\<close> followed by calls among which
  there is no close (the constructors of the Capture objects and of the Pipeline, and the
  Pipeline's \<open>run\<close>); when that \<open>terminate\<close> raises, the run ends with its exception and its
  state. In every state an object reaches from its construction, through any runs and
  terminates with any outcomes, every live Pipeline of the store is the one \<open>process\<close>
  refers to, so at most one is live. After two runs in succession that both return, the
  Pipeline of the second is the only live one, the Pipeline of the first is closed, and its
  \<open>close\<close> was called before the second was constructed.
\<close>

theorem run_single_live_process:
  "(run e self w param msg inp asy = (r, self', w') \<longrightarrow>
      (\<exists>r1 s1 w1 closes rest.
          terminate e self w = (r1, s1, w1) \<and>
          calls w1 = calls w @ closes \<and> list_all is_close closes \<and>
          calls w' = calls w1 @ rest \<and> list_all (\<lambda>c. \<not> is_close c) rest \<and>
          (\<forall>x. r1 = Raise x \<longrightarrow> r = Raise x \<and> self' = s1 \<and> w' = w1))) \<and>
   (reachable e self w \<longrightarrow> owns_live self w \<and> length (live w) \<le> 1) \<and>
   (reachable e self w \<and>
    run e self w param msg inp asy = (Return v1, sa, wa) \<and>
    run e sa wa param' msg' inp' asy' = (Return v2, sb, wb) \<longrightarrow>
      (\<exists>p1 p2. v1 = Some p1 \<and> v2 = Some p2 \<and> p1 < p2 \<and>
          live wa = [p1] \<and> live wb = [p2] \<and> process sb = Some p2 \<and>
          pl_closed (pipelines wb ! p1) \<and>
          (\<exists>a b c. calls wb = calls wa @ a @ [Pipeline_close p1] @ b @ [Pipeline_init p2] @ c)))"
proof (intro conjI impI)
  assume "run e self w param msg inp asy = (r, self', w')"
  from run_calls[OF this] obtain r1 s1 w1 rest where
    t: "terminate e self w = (r1, s1, w1)" and
    c: "calls w' = calls w1 @ rest" "list_all (\<lambda>c. \<not> is_close c) rest"
       "\<forall>x. r1 = Raise x \<longrightarrow> r = Raise x \<and> self' = s1 \<and> w' = w1"
    by (elim exE conjE)
  from terminate_calls[OF t] obtain cs where
    cs: "calls w1 = calls w @ cs" "prefix cs (due_closes self)"
    by (elim exE conjE)
  have "list_all is_close cs"
    using prefix_list_all[OF cs(2) due_closes_close] .
  with t c cs(1) show "\<exists>r1 s1 w1 closes rest.
          terminate e self w = (r1, s1, w1) \<and>
          calls w1 = calls w @ closes \<and> list_all is_close closes \<and>
          calls w' = calls w1 @ rest \<and> list_all (\<lambda>c. \<not> is_close c) rest \<and>
          (\<forall>x. r1 = Raise x \<longrightarrow> r = Raise x \<and> self' = s1 \<and> w' = w1)"
    by (intro exI[of _ r1] exI[of _ s1] exI[of _ w1] exI[of _ cs] exI[of _ rest] conjI)
next
  assume "reachable e self w"
  then show "owns_live self w" by (rule reachable_owns)
  then show "length (live w) \<le> 1" by (rule owns_live_at_most_one)
next
  assume a: "reachable e self w \<and>
    run e self w param msg inp asy = (Return v1, sa, wa) \<and>
    run e sa wa param' msg' inp' asy' = (Return v2, sb, wb)"
  from a have "reachable e self w" by (rule conjunct1)
  then have o: "owns_live self w" by (rule reachable_owns)
  from a have r1: "run e self w param msg inp asy = (Return v1, sa, wa)"
    by (elim conjE)
  from a have r2: "run e sa wa param' msg' inp' asy' = (Return v2, sb, wb)"
    by (elim conjE)
  define p1 where "p1 = length (pipelines w)"
  define p2 where "p2 = length (pipelines wa)"
  have oa: "owns_live sa wa" by (rule run_owns(1)[OF o r1])
  have la: "live wa = [p1]" unfolding p1_def by (rule run_owns(2)[OF o r1 refl])
  have lb: "live wb = [p2]" unfolding p2_def by (rule run_owns(2)[OF oa r2 refl])
  from run_pipelines[OF r1]
  have a1: "v1 = Some p1 \<and> process sa = Some p1 \<and> length (pipelines wa) = Suc p1"
    unfolding p1_def by (elim disjE conjE) simp_all
  from run_pipelines[OF r2]
  have a2: "v2 = Some p2 \<and> process sb = Some p2 \<and> length (pipelines wb) = Suc p2"
    unfolding p2_def by (elim disjE conjE) simp_all
  have lt: "p1 < p2" using a1 by (simp add: p2_def)
  have "p1 \<notin> set (live wb)" using lb lt by simp
  moreover have "p1 < length (pipelines wb)" using a2 lt by simp
  ultimately have closed: "pl_closed (pipelines wb ! p1)" by (simp add: live_def)
  from run_Return_calls[OF r2] obtain s1 w1 where
    t: "terminate e sa wa = (Return (), s1, w1)" and
    c: "calls wb = calls w1 @
          (if capture sa
           then [Capture_init (length (captures wa)), Capture_init (Suc (length (captures wa)))]
           else []) @ [Pipeline_init p2, Pipeline_run p2]"
    unfolding p2_def by (elim exE conjE)
  from terminate_calls[OF t] have cs: "calls w1 = calls wa @ due_closes sa"
    by (elim exE conjE) simp
  define a where "a = (case stdout sa of None \<Rightarrow> [] | Some c \<Rightarrow> [Capture_close c]) @
           (case stderr sa of None \<Rightarrow> [] | Some c \<Rightarrow> [Capture_close c])"
  define b where "b = (if capture sa
           then [Capture_init (length (captures wa)), Capture_init (Suc (length (captures wa)))]
           else [])"
  have "due_closes sa = a @ [Pipeline_close p1]"
    using a1 by (simp add: due_closes_def a_def)
  with c cs have "calls wb = calls wa @ a @ [Pipeline_close p1] @ b @ [Pipeline_init p2] @ [Pipeline_run p2]"
    by (simp add: b_def)
  then have "\<exists>a b c. calls wb = calls wa @ a @ [Pipeline_close p1] @ b @ [Pipeline_init p2] @ c"
    by (intro exI)
  with a1 a2 lt la lb closed
  show "\<exists>p1 p2. v1 = Some p1 \<and> v2 = Some p2 \<and> p1 < p2 \<and>
          live wa = [p1] \<and> live wb = [p2] \<and> process sb = Some p2 \<and>
          pl_closed (pipelines wb ! p1) \<and>
          (\<exists>a b c. calls wb = calls wa @ a @ [Pipeline_close p1] @ b @ [Pipeline_init p2] @ c)"
    by (intro exI[of _ p1] exI[of _ p2] conjI) simp_all
qed

text \<open>An instance: \<open>run("-l")\<close> then \<open>run()\<close> on \<open>posix_env\<close>, from the empty store.\<close>

theorem run_single_live_process_witness:
  "reachable posix_env (foo_cmd posix_env) empty_world \<and>
   run posix_env (foo_cmd posix_env) empty_world (Some ''-l'') PyNone PyNone False
     = (Return (Some 0), foo_started, world_started) \<and>
   live world_started = [0] \<and>
   fst (run posix_env foo_started world_started None PyNone PyNone False) = Return (Some 1) \<and>
   live (snd (snd (run posix_env foo_started world_started None PyNone PyNone False))) = [1] \<and>
   map pl_closed (pipelines (snd (snd (run posix_env foo_started world_started None PyNone PyNone False))))
     = [True, False] \<and>
   calls (snd (snd (run posix_env foo_started world_started None PyNone PyNone False)))
     = calls world_started @
       [Capture_close 0, Capture_close 1, Pipeline_close 0,
        Capture_init 2, Capture_init 3, Pipeline_init 1, Pipeline_run 1]"
proof -
  let ?r = "run posix_env foo_started world_started None PyNone PyNone False"
  have a: "reachable posix_env (foo_cmd posix_env) empty_world"
    unfolding foo_cmd_def by (rule reachable.constructed) (rule live_empty_world)
  have r: "?r = (Return (Some 1), fst (snd ?r), snd (snd ?r))"
    using run_foo_again(1) by (metis prod.collapse)
  have l: "live world_started = [0]"
    by (simp add: live_def world_started_def)
  show ?thesis
    using run_single_live_process[where e = posix_env and self = "foo_cmd posix_env"
        and w = empty_world and param = "Some ''-l''" and msg = PyNone and inp = PyNone
        and asy = False and ?v1.0 = "Some 0" and sa = foo_started and wa = world_started
        and param' = None and msg' = PyNone and inp' = PyNone and asy' = False
        and ?v2.0 = "Some 1" and sb = "fst (snd ?r)" and wb = "snd (snd ?r)"]
      a run_foo_posix r l run_foo_again
    by simp
qed

subsection \<open>C4: the command line built from the parameters\<close>

text \<open>
  C4, as amended. For every run, whatever its outcome, the source of every Pipeline it
  constructs is the program path, one space and the parameters when a non-empty parameters
  string was given, and the program path alone when none was given or the string given is
  empty (\<open>if param:\<close>, line 77); on Windows the suffix of C2 follows. A run that returns
  has constructed exactly one Pipeline, the one it returns.
\<close>

theorem run_command_line:
  assumes "run e self w param msg inp asy = (r, self', w')"
  shows "(\<forall>q. length (pipelines w) \<le> q \<and> q < length (pipelines w') \<longrightarrow>
            source (pipelines w' ! q) =
              (case param of
                 None \<Rightarrow> cmd self
               | Some s \<Rightarrow> if s = [] then cmd self else cmd self @ '' '' @ s) @
              (if platform_system e = ''Windows'' then '' & exit'' else [])) \<and>
         (\<forall>v. r = Return v \<longrightarrow>
            v = Some (length (pipelines w)) \<and> process self' = Some (length (pipelines w)) \<and>
            length (pipelines w') = Suc (length (pipelines w)))"
proof -
  have f: "fst (for_platform e (command_line (cmd self) param)) =
             (case param of
                 None \<Rightarrow> cmd self
               | Some s \<Rightarrow> if s = [] then cmd self else cmd self @ '' '' @ s) @
              (if platform_system e = ''Windows'' then '' & exit'' else [])"
    by (simp add: for_platform_def command_line_def split: option.splits)
  from run_pipelines[OF assms] show ?thesis
  proof
    assume "length (pipelines w') = length (pipelines w) \<and> (\<forall>v. r \<noteq> Return v)"
    then show ?thesis by auto
  next
    assume a: "length (pipelines w') = Suc (length (pipelines w)) \<and>
         process self' = Some (length (pipelines w)) \<and>
         (\<forall>v. r = Return v \<longrightarrow> v = Some (length (pipelines w))) \<and>
         source (pipelines w' ! length (pipelines w)) = fst (for_platform e (command_line (cmd self) param)) \<and>
         shell (pipelines w' ! length (pipelines w)) = snd (for_platform e (command_line (cmd self) param))"
    show ?thesis
    proof (intro conjI allI impI)
      fix q assume "length (pipelines w) \<le> q \<and> q < length (pipelines w')"
      with a have "q = length (pipelines w)" by simp
      with a f show "source (pipelines w' ! q) =
              (case param of
                 None \<Rightarrow> cmd self
               | Some s \<Rightarrow> if s = [] then cmd self else cmd self @ '' '' @ s) @
              (if platform_system e = ''Windows'' then '' & exit'' else [])"
        by simp
    qed (use a in simp_all)
  qed
qed

text \<open>An instance: \<open>run("-l")\<close> on \<open>posix_env\<close>.\<close>

theorem run_command_line_witness:
  "run posix_env (foo_cmd posix_env) empty_world (Some ''-l'') PyNone PyNone False
     = (Return (Some 0), foo_started, world_started) \<and>
   cmd (foo_cmd posix_env) = ''foo'' \<and> platform_system posix_env \<noteq> ''Windows'' \<and>
   length (pipelines empty_world) = 0 \<and> length (pipelines world_started) = 1 \<and>
   process foo_started = Some 0 \<and>
   source (pipelines world_started ! 0) = ''foo'' @ '' '' @ ''-l''"
  using run_command_line[OF run_foo_posix] run_foo_posix
  by (simp add: fixture_defs foo_started_def)

text \<open>
  The claim as stated (path, space and parameters for every supplied string) fails at the
  empty string: \<open>run("")\<close> hands \<open>"foo"\<close> to the Pipeline, not \<open>"foo "\<close>.
\<close>

theorem run_empty_param_counterexample:
  "platform_system posix_env \<noteq> ''Windows'' \<and> cmd (foo_cmd posix_env) = ''foo'' \<and>
   fst (run posix_env (foo_cmd posix_env) empty_world (Some '''') PyNone PyNone False)
     = Return (Some 0) \<and>
   map source (pipelines (snd (snd (run posix_env (foo_cmd posix_env) empty_world (Some '''')
      PyNone PyNone False)))) = [''foo''] \<and>
   ''foo'' \<noteq> ''foo'' @ '' '' @ ''''"
  by (simp add: fixture_defs run_defs)

subsection \<open>C5: the printed report\<close>

text \<open>
  C5. For every run that returns, with capture enabled and silence disabled, whose
  Pipeline has the return code 0 and whose stdout Capture holds the text of the three lines
  \<open>a\<close>, \<open>b\<close>, \<open>c\<close>: what the run printed is, line by line, the START line, the Command
  line, \<open>[] Exit Code : 0\<close>, the STDOUT label line ending in \<open>a\<close>, exactly two continuation
  lines with the prefix \<open>[]           : \<close> reading \<open>b\<close> and \<open>c\<close>, the STDERR block (its
  first line on the label's line, each further line prefixed), the \<open>[] ** E N D **\<close> line
  and an empty line.
\<close>

theorem run_report_three_lines:
  assumes "capture self" and "\<not> silence self"
    and "run e self w param msg inp asy = (Return (Some p), self', w')"
    and "returncode (pipelines w' ! p) = Some 0"
    and "stdout self' = Some c" and "cap_text (captures w' ! c) = ''a\<newline>b\<newline>c''"
    and "stderr self' = Some d"
  shows "console w' = console w @
           concat (map (\<lambda>l. l @ ''\<newline>'')
             ([''[] ** START **'',
               ''[] Command   : '' @ source (pipelines w' ! p),
               ''[] Exit Code : 0'',
               ''[] STDOUT    : a'',
               ''[]           : b'',
               ''[]           : c''] @
              (case split_nl (cap_text (captures w' ! d)) of
                 x # rest \<Rightarrow> (''[] STDERR    : '' @ x) # map (\<lambda>i. ''[]           : '' @ i) rest
               | [] \<Rightarrow> [''[] STDERR    : '']) @
              [''[] ** E N D **'', '''']))"
proof -
  from run_console[OF assms(3)] assms(2) obtain w4 where
    pr: "printResult self' w4 = (Return (), w')" and con: "console w4 = console w"
    and same: "pipelines w4 = pipelines w'" "captures w4 = captures w'"
    by auto
  have proc: "process self' = Some p"
    using run_pipelines[OF assms(3)] by auto
  from printResult_Return[OF pr] proc assms(4-7) same con
  have "console w' = console w @ ''[] ** START **'' @ ''\<newline>'' @
             (''[] Command   : '' @ source (pipelines w' ! p)) @ ''\<newline>'' @
             (''[] Exit Code : '' @ format_d 0) @ ''\<newline>'' @
             ''[] STDOUT    :'' @ '' '' @
             (case split_nl ''a\<newline>b\<newline>c'' of
                x # rest \<Rightarrow> x @ ''\<newline>'' @ concat (map (\<lambda>i. ''[]           : '' @ i @ ''\<newline>'') rest)
              | [] \<Rightarrow> ''\<newline>'') @
             ''[] STDERR    :'' @ '' '' @
             (case split_nl (cap_text (captures w' ! d)) of
                x # rest \<Rightarrow> x @ ''\<newline>'' @ concat (map (\<lambda>i. ''[]           : '' @ i @ ''\<newline>'') rest)
              | [] \<Rightarrow> ''\<newline>'') @
             ''[] ** E N D **'' @ ''\<newline>'' @ '''' @ ''\<newline>''"
    by auto
  then show ?thesis
    unfolding split_abc format_zero
    by (cases "split_nl (cap_text (captures w' ! d))") (simp_all add: comp_def)
qed

text \<open>An instance: \<open>CliCommand("foo", silence=False).run("-l")\<close> on \<open>posix_env\<close>, with the
  whole text printed.\<close>

theorem run_report_three_lines_witness:
  "capture (foo_loud posix_env) \<and> \<not> silence (foo_loud posix_env) \<and>
   run posix_env (foo_loud posix_env) empty_world (Some ''-l'') PyNone PyNone False
     = (Return (Some 0), foo_started\<lparr>silence := False\<rparr>,
        world_started\<lparr>console :=
          ''[] ** START **\<newline>[] Command   : foo -l\<newline>[] Exit Code : 0\<newline>[] STDOUT    : a\<newline>[]           : b\<newline>[]           : c\<newline>[] STDERR    : \<newline>[] ** E N D **\<newline>\<newline>''\<rparr>) \<and>
   returncode (pipelines world_started ! 0) = Some 0 \<and>
   stdout foo_started = Some 0 \<and> cap_text (captures world_started ! 0) = ''a\<newline>b\<newline>c'' \<and>
   stderr foo_started = Some 1 \<and> cap_text (captures world_started ! 1) = '''' \<and>
   console empty_world = ''''"
proof -
  have c: "capture (foo_loud posix_env)" and s: "\<not> silence (foo_loud posix_env)"
    by (simp_all add: fixture_defs)
  show ?thesis
    using run_report_three_lines[OF c s run_foo_loud, of 0 1] run_foo_loud c s
    by (simp add: foo_started_def world_started_def empty_world_def)
qed

subsection \<open>C6: \<open>get_output\<close> without a capture\<close>

text \<open>
  C6. \<open>get_output()\<close> is \<open>None\<close> on a constructed object that was never run. With capture
  disabled it is \<open>None\<close> in every state the object reaches, and so after any \<open>run\<close> from
  such a state, whatever the outcome of that run. \<open>get_output\<close> reads one attribute and
  raises nothing.
\<close>

theorem get_output_null:
  "get_output (init e c px s cap kw) = None \<and>
   (reachable e self w \<and> \<not> capture self \<longrightarrow>
      get_output self = None \<and>
      (run e self w param msg inp asy = (r, self', w') \<longrightarrow> get_output self' = None))"
proof (intro conjI impI)
  show "get_output (init e c px s cap kw) = None"
    by (simp add: get_output_def init_def Let_def split: option.splits)
next
  assume a: "reachable e self w \<and> \<not> capture self"
  then show "get_output self = None"
    using reachable_no_capture[of e self w] by (simp add: get_output_def)
  assume r: "run e self w param msg inp asy = (r, self', w')"
  have "reachable e self' w'" using a r by (blast intro: reachable.ran)
  moreover have "\<not> capture self'" using a run_frame_fields[OF r] by simp
  ultimately show "get_output self' = None"
    using reachable_no_capture[of e self' w'] by (simp add: get_output_def)
qed

text \<open>An instance: \<open>CliCommand("foo", capture=False)\<close>, before and after \<open>run("-l")\<close>.\<close>

theorem get_output_null_witness:
  "get_output (init posix_env ''foo'' None True True Map.empty) = None \<and>
   reachable posix_env (foo_nocapture posix_env) empty_world \<and>
   \<not> capture (foo_nocapture posix_env) \<and>
   get_output (foo_nocapture posix_env) = None \<and>
   fst (run posix_env (foo_nocapture posix_env) empty_world (Some ''-l'') PyNone PyNone False)
     = Return (Some 0) \<and>
   get_output (fst (snd (run posix_env (foo_nocapture posix_env) empty_world (Some ''-l'')
     PyNone PyNone False))) = None"
proof -
  let ?r = "run posix_env (foo_nocapture posix_env) empty_world (Some ''-l'') PyNone PyNone False"
  have r: "?r = (fst ?r, fst (snd ?r), snd (snd ?r))" by simp
  have a: "reachable posix_env (foo_nocapture posix_env) empty_world"
    unfolding foo_nocapture_def by (rule reachable.constructed) (rule live_empty_world)
  have b: "\<not> capture (foo_nocapture posix_env)" by (simp add: fixture_defs)
  have c: "fst ?r = Return (Some 0)" by (simp add: fixture_defs run_defs)
  show ?thesis
    using get_output_null[of posix_env "''foo''" None True True Map.empty
        "foo_nocapture posix_env" empty_world "Some ''-l''" PyNone PyNone False
        "fst ?r" "fst (snd ?r)" "snd (snd ?r)"] a b c r
    by simp
qed

subsection \<open>C7: \<open>terminate\<close> is idempotent\<close>

text \<open>
  C7. On a freshly constructed object \<open>terminate\<close> returns and changes neither the object
  (process and both captures stay \<open>None\<close>) nor the store. Every release is guarded: in any
  state the close calls it makes are among those due for the attributes that are not
  \<open>None\<close>, in order, and all of them when it returns; with nothing due it makes no call
  and changes nothing; and the only exception it can end with is one that a \<open>close\<close> of
  the library raised, never one from using \<open>None\<close>. So once \<open>terminate\<close> has returned,
  calling it again returns and changes nothing.
\<close>

theorem terminate_idempotent:
  "terminate e (init e c px s cap kw) w = (Return (), init e c px s cap kw, w) \<and>
   process (init e c px s cap kw) = None \<and> stdout (init e c px s cap kw) = None \<and>
   stderr (init e c px s cap kw) = None \<and>
   (due_closes self = [] \<longrightarrow> terminate e self w = (Return (), self, w)) \<and>
   (terminate e self w = (r, self', w') \<longrightarrow>
      (\<forall>x. r = Raise x \<longrightarrow> (\<exists>m. x = LibraryError m)) \<and>
      (\<exists>cs. calls w' = calls w @ cs \<and> prefix cs (due_closes self) \<and>
            (r = Return () \<longrightarrow> cs = due_closes self \<and> due_closes self' = [] \<and>
               terminate e self' w' = (Return (), self', w'))))"
proof (intro conjI impI allI)
  show i: "terminate e (init e c px s cap kw) w = (Return (), init e c px s cap kw, w)"
    by (rule terminate_idle) (simp_all add: init_def Let_def split: option.splits)
  show "process (init e c px s cap kw) = None" "stdout (init e c px s cap kw) = None"
    "stderr (init e c px s cap kw) = None"
    by (simp_all add: init_def Let_def split: option.splits)
  show "terminate e self w = (Return (), self, w)" if "due_closes self = []"
    using that by (intro terminate_idle) (auto simp: due_closes_def split: option.splits)
  assume t: "terminate e self w = (r, self', w')"
  show "\<exists>m. x = LibraryError m" if "r = Raise x" for x
    using terminate_raises_library[of e self w x self' w'] t that by simp
  from terminate_calls[OF t] obtain cs where
    cs: "calls w' = calls w @ cs" "prefix cs (due_closes self)" "r = Return () \<longrightarrow> cs = due_closes self"
    by blast
  have "due_closes self' = [] \<and> terminate e self' w' = (Return (), self', w')" if "r = Return ()"
    using terminate_Return_nulls[of e self w "()" self' w'] t that
    by (simp add: due_closes_def terminate_idle)
  with cs show "\<exists>cs. calls w' = calls w @ cs \<and> prefix cs (due_closes self) \<and>
            (r = Return () \<longrightarrow> cs = due_closes self \<and> due_closes self' = [] \<and>
               terminate e self' w' = (Return (), self', w'))"
    by blast
qed

text \<open>An instance: a fresh object, and the object after \<open>run("-l")\<close> terminated twice.\<close>

theorem terminate_idempotent_witness:
  "terminate posix_env (init posix_env ''foo'' None True True Map.empty) world_started
     = (Return (), init posix_env ''foo'' None True True Map.empty, world_started) \<and>
   due_closes foo_started = [Capture_close 0, Capture_close 1, Pipeline_close 0] \<and>
   terminate posix_env foo_started world_started = (Return (), foo_stopped, world_stopped) \<and>
   calls world_stopped = calls world_started @ [Capture_close 0, Capture_close 1, Pipeline_close 0] \<and>
   due_closes foo_stopped = [] \<and>
   terminate posix_env foo_stopped world_stopped = (Return (), foo_stopped, world_stopped)"
  using terminate_idempotent[of posix_env "''foo''" None True True Map.empty world_started
      foo_started "Return ()" foo_stopped world_stopped] terminate_foo_stopped
  by (simp add: due_closes_def foo_started_def world_stopped_def)

subsection \<open>C8: what \<open>terminate\<close> leaves unchanged\<close>

text \<open>
  C8. In every state and with every outcome, \<open>terminate\<close> changes no attribute but
  \<open>process\<close>, \<open>stdout\<close> and \<open>stderr\<close>: the program path, the posix flag, the silence and
  capture flags, both encodings and the stored launch options are as before. Each of the
  three is either as before or \<open>None\<close>, and all three are \<open>None\<close> when it returns.
\<close>

theorem terminate_frame:
  assumes "terminate e self w = (r, self', w')"
  shows "cmd self' = cmd self \<and> posix self' = posix self \<and> silence self' = silence self \<and>
         capture self' = capture self \<and> stdout_encoding self' = stdout_encoding self \<and>
         stderr_encoding self' = stderr_encoding self \<and> kwargs self' = kwargs self \<and>
         self' = self\<lparr>process := process self', stdout := stdout self', stderr := stderr self'\<rparr> \<and>
         (process self' = None \<or> process self' = process self) \<and>
         (stdout self' = None \<or> stdout self' = stdout self) \<and>
         (stderr self' = None \<or> stderr self' = stderr self) \<and>
         (r = Return () \<longrightarrow> process self' = None \<and> stdout self' = None \<and> stderr self' = None)"
  using assms unfolding terminate_defs
  by (auto simp: Let_def split: option.splits prod.splits outcome.splits)

text \<open>An instance: the object after \<open>run("-l")\<close>.\<close>

theorem terminate_frame_witness:
  "terminate posix_env foo_started world_started
     = (Return (), foo_started\<lparr>process := None, stdout := None, stderr := None\<rparr>,
        world_started\<lparr>captures := map (\<lambda>c. c\<lparr>cap_closed := True\<rparr>) (captures world_started),
                       pipelines := map (\<lambda>c. c\<lparr>pl_closed := True\<rparr>) (pipelines world_started),
                       calls := calls world_started @ [Capture_close 0, Capture_close 1, Pipeline_close 0]\<rparr>) \<and>
   cmd (foo_started\<lparr>process := None, stdout := None, stderr := None\<rparr>) = cmd foo_started \<and>
   posix (foo_started\<lparr>process := None, stdout := None, stderr := None\<rparr>) = posix foo_started \<and>
   silence (foo_started\<lparr>process := None, stdout := None, stderr := None\<rparr>) = silence foo_started \<and>
   capture (foo_started\<lparr>process := None, stdout := None, stderr := None\<rparr>) = capture foo_started \<and>
   kwargs (foo_started\<lparr>process := None, stdout := None, stderr := None\<rparr>) = kwargs foo_started \<and>
   stdout_encoding (foo_started\<lparr>process := None, stdout := None, stderr := None\<rparr>) = PyStr ''utf-8'' \<and>
   stderr_encoding (foo_started\<lparr>process := None, stdout := None, stderr := None\<rparr>) = PyStr ''utf-8'' \<and>
   process foo_started = Some 0 \<and> stdout foo_started = Some 0 \<and> stderr foo_started = Some 1"
  using terminate_frame[OF terminate_foo_started] terminate_foo_started
  by (simp add: foo_started_def)

subsection \<open>C9: the \<open>msg\<close> argument\<close>

text \<open>
  C9. The \<open>msg\<close> argument of \<open>run\<close> has no effect: two calls that differ only in it yield
  the same outcome (the returned value or the exception), the same object state and the
  same store, which holds the Pipeline with its command line and the printed report.
\<close>

theorem run_ignores_msg:
  "run e self w param msg inp asy = run e self w param msg' inp asy"
  by (simp add: run_def)

text \<open>An instance: a message against none.\<close>

theorem run_ignores_msg_witness:
  "run posix_env (foo_cmd posix_env) empty_world (Some ''-l'') (PyStr ''listing'') PyNone False
   = run posix_env (foo_cmd posix_env) empty_world (Some ''-l'') PyNone PyNone False \<and>
   run posix_env (foo_cmd posix_env) empty_world (Some ''-l'') PyNone PyNone False
   = (Return (Some 0), foo_started, world_started)"
  using run_ignores_msg[of posix_env "foo_cmd posix_env" empty_world "Some ''-l''" "PyStr ''listing''" PyNone False PyNone]
    run_foo_posix by simp

subsection \<open>C10: \<open>get_output\<close> after \<open>terminate\<close>\<close>

text \<open>
  C10. After \<open>terminate()\<close> has returned, \<open>get_output()\<close> is \<open>None\<close>, also when the run
  before it had capture enabled and \<open>get_output()\<close> was the stdout Capture of that run.
\<close>

theorem get_output_after_terminate:
  "(terminate e self w = (Return (), self', w') \<longrightarrow> get_output self' = None) \<and>
   (capture self \<and> run e self w param msg inp asy = (Return v, s1, w1) \<and>
      terminate e s1 w1 = (Return (), s2, w2) \<longrightarrow>
        get_output s1 = Some (length (captures w)) \<and> get_output s2 = None)"
proof (intro conjI impI)
  assume "terminate e self w = (Return (), self', w')"
  from terminate_Return_nulls[OF this] show "get_output self' = None"
    by (simp add: get_output_def)
next
  assume a: "capture self \<and> run e self w param msg inp asy = (Return v, s1, w1) \<and>
      terminate e s1 w1 = (Return (), s2, w2)"
  then show "get_output s1 = Some (length (captures w))"
    using run_captures[of e self w param msg inp asy "Return v" s1 w1]
    by (auto simp: get_output_def)
  from a have "terminate e s1 w1 = (Return (), s2, w2)" by simp
  from terminate_Return_nulls[OF this] show "get_output s2 = None"
    by (simp add: get_output_def)
qed

text \<open>An instance: \<open>run("-l")\<close> with capture, then \<open>terminate()\<close>.\<close>

theorem get_output_after_terminate_witness:
  "capture (foo_cmd posix_env) \<and>
   run posix_env (foo_cmd posix_env) empty_world (Some ''-l'') PyNone PyNone False
     = (Return (Some 0), foo_started, world_started) \<and>
   get_output foo_started = Some 0 \<and>
   terminate posix_env foo_started world_started = (Return (), foo_stopped, world_stopped) \<and>
   get_output foo_stopped = None"
  using get_output_after_terminate[of posix_env foo_started world_started foo_stopped world_stopped]
    get_output_after_terminate[of posix_env "foo_cmd posix_env" empty_world _ _ "Some ''-l''"
      PyNone PyNone False "Some 0" foo_started world_started foo_stopped world_stopped]
    run_foo_posix terminate_foo_stopped
  by (simp add: fixture_defs)

end
